theory Spec2Isabelle
  imports Complex_Main "HOL-Library.Log_Nat"
begin

section \<open>Data model of the reconciliation engine\<close>

text \<open>
  The engine of \<^verbatim>\<open>qtrader/core/engine.py\<close> reconciles three stores: the in-memory
  portfolio, the ledger (the \<^verbatim>\<open>sqlite3\<close> plugin's \<^verbatim>\<open>DB\<close>) and the broker's snapshot.
  Amounts, prices and quantities are Python floats, and timestamps have microseconds;
  both are modelled first.
\<close>

subsection \<open>Floating-point arithmetic\<close>

text \<open>
  The amounts, prices and quantities of the engine are Python floats (binary64). A float
  is modelled by the rational it holds, and each arithmetic operation by the exact
  operation followed by \<open>fl\<close>, the rounding to the nearest number with a significand of
  53 bits, ties going to the even significand. The exponent is not bounded: overflow,
  underflow, infinities and NaN are left out. The numbers that a float can hold are the
  fixed points of \<open>fl\<close>.
\<close>

definition pow2 :: "int \<Rightarrow> rat" where
  "pow2 e = (if e \<ge> 0 then 2 ^ nat e else 1 / 2 ^ nat (- e))"

text \<open>The integer \<open>k\<close> with \<open>2 ^ k \<le> x < 2 ^ (k + 1)\<close>, for a positive \<open>x\<close>.\<close>

definition ilog2 :: "rat \<Rightarrow> int" where
  "ilog2 x = (if x \<ge> 1 then bitlen \<lfloor>x\<rfloor> - 1 else - bitlen (\<lceil>1 / x\<rceil> - 1))"

definition round_even :: "rat \<Rightarrow> int" where
  "round_even m =
     (let f = \<lfloor>m\<rfloor>; r = m - of_int f
      in if r < 1 / 2 then f else if r > 1 / 2 then f + 1 else if even f then f else f + 1)"

definition fl :: "rat \<Rightarrow> rat" where
  "fl x = (if x = 0 then 0
           else let e = ilog2 \<bar>x\<bar> - 52 in of_int (round_even (x / pow2 e)) * pow2 e)"

definition fl_add :: "rat \<Rightarrow> rat \<Rightarrow> rat" where
  "fl_add x y = fl (x + y)"

definition fl_sub :: "rat \<Rightarrow> rat \<Rightarrow> rat" where
  "fl_sub x y = fl (x - y)"

definition fl_mul :: "rat \<Rightarrow> rat \<Rightarrow> rat" where
  "fl_mul x y = fl (x * y)"

text \<open>The engine divides by a quantity only where it has tested that it is positive.\<close>

definition fl_div :: "rat \<Rightarrow> rat \<Rightarrow> rat" where
  "fl_div x y = fl (x / y)"

text \<open>Python's \<^verbatim>\<open>sum\<close> of a column: the entries are added to 0 from left to right.\<close>

definition fsum :: "rat list \<Rightarrow> rat" where
  "fsum xs = foldl fl_add 0 xs"

subsection \<open>Timestamps\<close>

text \<open>
  A \<^verbatim>\<open>datetime\<close> is a number of microseconds. Modelled from the spec: the plugin that
  writes a timestamp to the ledger is not among the sources. Section 3 lists
  \<^verbatim>\<open>update_time\<close> among the columns of both tables; the column holds the text of the
  timestamp, which Python renders with a fraction of a second exactly when the
  microseconds are not zero, and it is modelled by the timestamp whose text it holds. The
  engine reads the text back with \<^verbatim>\<open>datetime.strptime(..., "%Y-%m-%d %H:%M:%S")\<close>
  (line 117), a format without a fraction, which raises \<^verbatim>\<open>ValueError\<close> for a text
  that has one.
\<close>

type_synonym datetime = nat

datatype direction = LONG | SHORT | NET

datatype error = AssertionError | IndexError | ValueError | AttributeError

definition strptime :: "datetime \<Rightarrow> error + datetime" where
  "strptime t = (if t mod 1000000 = 0 then Inr t else Inl ValueError)"

text \<open>
  \<^verbatim>\<open>Stock(code=..., stock_name=...)\<close>: the two fields the engine reads and writes. Two
  securities are equal when both fields are.
\<close>

record stock =
  code :: string
  stock_name :: string

record position_data =
  pd_security :: stock
  pd_direction :: direction
  pd_holding_price :: rat
  pd_quantity :: rat
  pd_update_time :: datetime

record account_balance =
  ab_cash :: rat
  ab_power :: rat
  ab_max_power_short :: rat
  ab_net_cash_power :: rat

text \<open>Rows of the two ledger tables (spec, section 3). The direction column is text.\<close>

record balance_row =
  b_id :: int
  b_broker_name :: string
  b_broker_environment :: string
  b_broker_account :: string
  b_broker_account_id :: int
  b_strategy_account :: string
  b_strategy_account_id :: int
  b_strategy_version :: string
  b_strategy_version_desc :: string
  b_strategy_status :: string
  b_cash :: rat
  b_power :: rat
  b_max_power_short :: rat
  b_net_cash_power :: rat
  b_update_time :: datetime
  b_remark :: string

record position_row =
  p_id :: int
  p_balance_id :: int
  p_security_code :: string
  p_security_name :: string
  p_direction :: string
  p_holding_price :: rat
  p_quantity :: rat
  p_update_time :: datetime

subsection \<open>The ledger\<close>

text \<open>
  Modelled from the spec: the \<^verbatim>\<open>DB\<close> class of the \<^verbatim>\<open>sqlite3\<close> plugin is not among the
  sources. Section 4.1 gives its contract: \<^verbatim>\<open>select(table, filters) -> rows\<close> (empty when
  nothing matches), \<^verbatim>\<open>insert(table, fields) -> id\<close>, \<^verbatim>\<open>update(table, filters, fields)\<close>,
  \<^verbatim>\<open>delete(table, filters)\<close>; each operation is atomic on its own and takes effect when
  it returns (section 5), and a sequence of them is not a transaction. A table is the
  list of its rows in insertion order; an insert gives the row an id above every id of
  the table. The field \<open>writes\<close> counts the insert, update and delete operations
  performed.
\<close>

record ledger =
  balance_tbl :: "balance_row list"
  position_tbl :: "position_row list"
  writes :: nat

definition empty_ledger :: ledger where
  "empty_ledger = \<lparr>balance_tbl = [], position_tbl = [], writes = 0\<rparr>"

definition next_id :: "int list \<Rightarrow> int" where
  "next_id ids = (if ids = [] then 1 else Max (set ids) + 1)"

definition select_records :: "('r \<Rightarrow> bool) \<Rightarrow> 'r list \<Rightarrow> 'r list" where
  "select_records flt rows = filter flt rows"

definition insert_balance :: "balance_row \<Rightarrow> ledger \<Rightarrow> ledger" where
  "insert_balance r l =
     l\<lparr>balance_tbl := balance_tbl l @ [r\<lparr>b_id := next_id (map b_id (balance_tbl l))\<rparr>],
       writes := Suc (writes l)\<rparr>"

definition update_balance :: "(balance_row \<Rightarrow> bool) \<Rightarrow> (balance_row \<Rightarrow> balance_row) \<Rightarrow> ledger \<Rightarrow> ledger" where
  "update_balance flt columns l =
     l\<lparr>balance_tbl := map (\<lambda>r. if flt r then columns r else r) (balance_tbl l),
       writes := Suc (writes l)\<rparr>"

definition insert_position :: "position_row \<Rightarrow> ledger \<Rightarrow> ledger" where
  "insert_position r l =
     l\<lparr>position_tbl := position_tbl l @ [r\<lparr>p_id := next_id (map p_id (position_tbl l))\<rparr>],
       writes := Suc (writes l)\<rparr>"

definition delete_position :: "(position_row \<Rightarrow> bool) \<Rightarrow> ledger \<Rightarrow> ledger" where
  "delete_position flt l =
     l\<lparr>position_tbl := filter (\<lambda>r. \<not> flt r) (position_tbl l),
       writes := Suc (writes l)\<rparr>"

subsection \<open>The in-memory position table\<close>

text \<open>
  Modelled from the spec: the class \<^verbatim>\<open>Position\<close> is not among the sources. Section 3: a
  mapping from \<^verbatim>\<open>(security, direction)\<close> to PositionData with unique keys; an OPEN
  offset adds the entry for a new key and, for a key already present, combines it with
  the entry there. How two entries of one key combine is left open by the spec, so it is
  the parameter \<open>mrg\<close> (old entry, new entry).
\<close>

type_synonym position = "((stock \<times> direction) \<times> position_data) list"

type_synonym merge = "position_data \<Rightarrow> position_data \<Rightarrow> position_data"

definition pd_key :: "position_data \<Rightarrow> stock \<times> direction" where
  "pd_key pd = (pd_security pd, pd_direction pd)"

fun position_update :: "merge \<Rightarrow> position \<Rightarrow> position_data \<Rightarrow> position" where
  "position_update mrg [] pd = [(pd_key pd, pd)]"
| "position_update mrg ((k, old) # rest) pd =
     (if k = pd_key pd then (k, mrg old pd) # rest
      else (k, old) # position_update mrg rest pd)"

definition get_all_positions :: "position \<Rightarrow> position_data list" where
  "get_all_positions pos = map snd pos"

subsection \<open>The engine\<close>

text \<open>
  The engine's state as the reconciler sees it: the identity configuration
  (\<^verbatim>\<open>GATEWAY["broker_name"]\<close>, \<^verbatim>\<open>market.trade_mode.name\<close>, \<^verbatim>\<open>GATEWAY["broker_account"]\<close>,
  \<^verbatim>\<open>strategy_account\<close>, \<^verbatim>\<open>strategy_version\<close>), the ledger when the engine has one
  (\<^verbatim>\<open>has_db\<close>), and the portfolio's balance and position table. The balance is optional
  because \<^verbatim>\<open>sync_broker_balance\<close> stores what \<^verbatim>\<open>get_db_balance\<close> returns, which may be
  \<^verbatim>\<open>None\<close>.
\<close>

record engine =
  broker_name :: string
  broker_environment :: string
  broker_account :: string
  strategy_account :: string
  strategy_version :: string
  db :: "ledger option"
  pf_account_balance :: "account_balance option"
  pf_position :: position

text \<open>
  A call either returns or raises; a Python exception does not undo the mutations made
  before it, so both outcomes carry the engine's state.
\<close>

datatype outcome = Done engine | Raised error engine

fun state_of :: "outcome \<Rightarrow> engine" where
  "state_of (Done e) = e"
| "state_of (Raised x e) = e"

fun raised :: "outcome \<Rightarrow> bool" where
  "raised (Done e) = False"
| "raised (Raised x e) = True"

definition has_db :: "engine \<Rightarrow> bool" where
  "has_db e = (db e \<noteq> None)"

text \<open>The filter \<^verbatim>\<open>broker_name=..., broker_environment=..., broker_account=...\<close>.\<close>

definition of_account :: "engine \<Rightarrow> balance_row \<Rightarrow> bool" where
  "of_account e r =
     (b_broker_name r = broker_name e \<and> b_broker_environment r = broker_environment e \<and>
      b_broker_account r = broker_account e)"

definition of_strategy :: "string \<Rightarrow> string \<Rightarrow> balance_row \<Rightarrow> bool" where
  "of_strategy sa sv r = (b_strategy_account r = sa \<and> b_strategy_version r = sv)"

definition get_db_balance :: "engine \<Rightarrow> ledger \<Rightarrow> string \<Rightarrow> string \<Rightarrow> error + account_balance option" where
  "get_db_balance e l sa sv =
     (let balance_df = select_records (\<lambda>r. of_account e r \<and> of_strategy sa sv r) (balance_tbl l) in
      case balance_df of
        [] \<Rightarrow> Inr None
      | [r] \<Rightarrow> Inr (Some \<lparr>ab_cash = b_cash r, ab_power = b_power r,
                          ab_max_power_short = b_max_power_short r,
                          ab_net_cash_power = b_net_cash_power r\<rparr>)
      | _ \<Rightarrow> Inl AssertionError)"

subsection \<open>Balance sync\<close>

definition default_row :: "engine \<Rightarrow> datetime \<Rightarrow> int \<Rightarrow> int \<Rightarrow> rat \<Rightarrow> rat \<Rightarrow> balance_row" where
  "default_row e now broker_account_id strategy_account_id cash pwr =
     \<lparr>b_id = 0, b_broker_name = broker_name e, b_broker_environment = broker_environment e,
      b_broker_account = broker_account e, b_broker_account_id = broker_account_id,
      b_strategy_account = ''default'', b_strategy_account_id = strategy_account_id,
      b_strategy_version = strategy_version e, b_strategy_version_desc = ''manual trading'',
      b_strategy_status = ''active'', b_cash = cash, b_power = pwr,
      b_max_power_short = - 1, b_net_cash_power = - 1, b_update_time = now,
      b_remark = ''N/A''\<rparr>"

definition strategy_row :: "engine \<Rightarrow> datetime \<Rightarrow> int \<Rightarrow> int \<Rightarrow> rat \<Rightarrow> rat \<Rightarrow> balance_row" where
  "strategy_row e now broker_account_id strategy_account_id cash pwr =
     \<lparr>b_id = 0, b_broker_name = broker_name e, b_broker_environment = broker_environment e,
      b_broker_account = broker_account e, b_broker_account_id = broker_account_id,
      b_strategy_account = strategy_account e, b_strategy_account_id = strategy_account_id,
      b_strategy_version = strategy_version e, b_strategy_version_desc = '''',
      b_strategy_status = ''active'', b_cash = cash, b_power = pwr,
      b_max_power_short = - 1, b_net_cash_power = - 1, b_update_time = now,
      b_remark = ''N/A''\<rparr>"

text \<open>
  The last step of \<^verbatim>\<open>sync_broker_balance\<close>: the portfolio's balance is re-read from the
  ledger. The ledger \<open>l\<close> is the one the branch before has left.
\<close>

definition reload_balance :: "engine \<Rightarrow> ledger \<Rightarrow> outcome" where
  "reload_balance e l =
     (case get_db_balance e l (strategy_account e) (strategy_version e) of
        Inl x \<Rightarrow> Raised x (e\<lparr>db := Some l\<rparr>)
      | Inr ab \<Rightarrow> Done (e\<lparr>db := Some l, pf_account_balance := ab\<rparr>))"

text \<open>The first-time branch (lines 138 to 186).\<close>

definition bootstrap_balance :: "datetime \<Rightarrow> account_balance \<Rightarrow> engine \<Rightarrow> ledger \<Rightarrow> outcome" where
  "bootstrap_balance now broker_balance e l =
     (let account_ids = balance_tbl l;
          broker_account_id =
            (if account_ids = [] then 1 else Max (set (map b_broker_account_id account_ids)) + 1);
          strategy_account_id =
            (if account_ids = [] then 1 else Max (set (map b_strategy_account_id account_ids)) + 1)
      in case pf_account_balance e of
           None \<Rightarrow> Raised AttributeError e
         | Some local \<Rightarrow>
             (let cash = fl_sub (ab_cash broker_balance) (ab_cash local);
                  pwr = fl_sub (ab_power broker_balance) (ab_power local)
              in if \<not> cash \<ge> 0 then Raised AssertionError e
                 else if \<not> pwr \<ge> 0 then Raised AssertionError e
                 else
                   reload_balance e
                     (insert_balance
                        (strategy_row e now broker_account_id (strategy_account_id + 1)
                           (ab_cash local) (ab_power local))
                        (insert_balance
                           (default_row e now broker_account_id strategy_account_id cash pwr) l))))"

text \<open>
  One round of the loop \<^verbatim>\<open>for field in ("cash", "power")\<close> (lines 192 to 204): \<open>bget\<close>
  reads the field of the broker's balance, \<open>rget\<close> and \<open>rset\<close> read and write the column.
  \<open>balance_df\<close> is the selection made before the loop and \<open>dflt\<close> its first default row.
\<close>

definition sync_field ::
  "(account_balance \<Rightarrow> rat) \<Rightarrow> (balance_row \<Rightarrow> rat) \<Rightarrow> (rat \<Rightarrow> balance_row \<Rightarrow> balance_row) \<Rightarrow>
   account_balance \<Rightarrow> balance_row list \<Rightarrow> balance_row \<Rightarrow> ledger \<Rightarrow> error + ledger" where
  "sync_field bget rget rset broker_balance balance_df dflt l =
     (let delta_val = fl_sub (bget broker_balance) (fsum (map rget balance_df));
          current_val = rget dflt
      in if \<not> fl_add current_val delta_val \<ge> 0 then Inl AssertionError
         else if delta_val \<noteq> 0
           then Inr (update_balance (\<lambda>r. b_id r = b_id dflt)
                       (rset (fl_add current_val delta_val)) l)
           else Inr l)"

text \<open>The subsequent-times branch (lines 188 to 204).\<close>

definition update_default :: "account_balance \<Rightarrow> engine \<Rightarrow> ledger \<Rightarrow> balance_row list \<Rightarrow> outcome" where
  "update_default broker_balance e l balance_df =
     (case filter (\<lambda>r. b_strategy_account r = ''default'') balance_df of
        [] \<Rightarrow> Raised IndexError e
      | dflt # _ \<Rightarrow>
          (case sync_field ab_cash b_cash (\<lambda>v r. r\<lparr>b_cash := v\<rparr>) broker_balance balance_df dflt l of
             Inl x \<Rightarrow> Raised x e
           | Inr l1 \<Rightarrow>
               (case sync_field ab_power b_power (\<lambda>v r. r\<lparr>b_power := v\<rparr>) broker_balance balance_df dflt l1 of
                  Inl x \<Rightarrow> Raised x (e\<lparr>db := Some l1\<rparr>)
                | Inr l2 \<Rightarrow> reload_balance e l2)))"

text \<open>
  \<^verbatim>\<open>Engine.sync_broker_balance\<close>. The broker's snapshot (\<^verbatim>\<open>get_broker_balance()\<close>) and the
  clock (\<^verbatim>\<open>datetime.now()\<close>) are inputs.
\<close>

definition sync_broker_balance :: "datetime \<Rightarrow> account_balance option \<Rightarrow> engine \<Rightarrow> outcome" where
  "sync_broker_balance now broker_balance e =
     (case broker_balance of
        None \<Rightarrow> Done e
      | Some bb \<Rightarrow>
          (case db e of
             None \<Rightarrow> Done (e\<lparr>pf_account_balance := Some bb\<rparr>)
           | Some l \<Rightarrow>
               (let balance_df = select_records (of_account e) (balance_tbl l)
                in if balance_df = [] then bootstrap_balance now bb e l
                   else update_default bb e l balance_df)))"

subsection \<open>Position sync\<close>

definition convert_direction_db2qt :: "string \<Rightarrow> error + direction" where
  "convert_direction_db2qt d =
     (if d = ''LONG'' then Inr LONG
      else if d = ''SHORT'' then Inr SHORT
      else if d = ''NET'' then Inr NET
      else Inl ValueError)"

text \<open>\<^verbatim>\<open>direction.name\<close>, the text written to the direction column.\<close>

fun direction_name :: "direction \<Rightarrow> string" where
  "direction_name LONG = ''LONG''"
| "direction_name SHORT = ''SHORT''"
| "direction_name NET = ''NET''"

text \<open>The PositionData built from a position row (lines 110 to 118 and 277 to 285).\<close>

definition row_position_data :: "position_row \<Rightarrow> error + position_data" where
  "row_position_data row =
     (case convert_direction_db2qt (p_direction row) of
        Inl x \<Rightarrow> Inl x
      | Inr d \<Rightarrow>
          (case strptime (p_update_time row) of
             Inl x \<Rightarrow> Inl x
           | Inr t \<Rightarrow>
               Inr \<lparr>pd_security = \<lparr>code = p_security_code row, stock_name = p_security_name row\<rparr>,
                    pd_direction = d, pd_holding_price = p_holding_price row,
                    pd_quantity = p_quantity row, pd_update_time = t\<rparr>))"

text \<open>The keyword arguments of an insert into the position table.\<close>

definition position_row_of :: "int \<Rightarrow> position_data \<Rightarrow> position_row" where
  "position_row_of balance_id pd =
     \<lparr>p_id = 0, p_balance_id = balance_id, p_security_code = code (pd_security pd),
      p_security_name = stock_name (pd_security pd),
      p_direction = direction_name (pd_direction pd),
      p_holding_price = pd_holding_price pd, p_quantity = pd_quantity pd,
      p_update_time = pd_update_time pd\<rparr>"

fun load_rows :: "merge \<Rightarrow> position \<Rightarrow> position_row list \<Rightarrow> error + position" where
  "load_rows mrg pos [] = Inr pos"
| "load_rows mrg pos (row # rows) =
     (case row_position_data row of
        Inl x \<Rightarrow> Inl x
      | Inr pd \<Rightarrow> load_rows mrg (position_update mrg pos pd) rows)"

definition get_db_position :: "merge \<Rightarrow> ledger \<Rightarrow> int \<Rightarrow> error + position option" where
  "get_db_position mrg l balance_id =
     (let position_df = select_records (\<lambda>r. p_balance_id r = balance_id) (position_tbl l)
      in if position_df = [] then Inr None
         else (case load_rows mrg [] position_df of
                 Inl x \<Rightarrow> Inl x
               | Inr pos \<Rightarrow> Inr (Some pos)))"

text \<open>
  The inner loop (lines 290 to 308): the ledger position \<open>db_pos\<close> is taken off every
  broker position of its security and direction; the entry is replaced in place.
\<close>

fun deduct :: "position_data \<Rightarrow> position_data list \<Rightarrow> error + position_data list" where
  "deduct db_pos [] = Inr []"
| "deduct db_pos (brk_pos # rest) =
     (if pd_security brk_pos \<noteq> pd_security db_pos \<or> pd_direction brk_pos \<noteq> pd_direction db_pos
      then (case deduct db_pos rest of Inl x \<Rightarrow> Inl x | Inr rs \<Rightarrow> Inr (brk_pos # rs))
      else
        (let quantity = fl_sub (pd_quantity brk_pos) (pd_quantity db_pos) in
         if quantity > 0 then
           (case deduct db_pos rest of
              Inl x \<Rightarrow> Inl x
            | Inr rs \<Rightarrow>
                Inr (\<lparr>pd_security = pd_security db_pos, pd_direction = pd_direction db_pos,
                      pd_holding_price =
                        fl_div (fl_sub (fl_mul (pd_holding_price brk_pos) (pd_quantity brk_pos))
                                  (fl_mul (pd_holding_price db_pos) (pd_quantity db_pos)))
                          quantity,
                      pd_quantity = quantity, pd_update_time = pd_update_time db_pos\<rparr> # rs))
         else if quantity = 0 then
           (case deduct db_pos rest of
              Inl x \<Rightarrow> Inl x
            | Inr rs \<Rightarrow>
                Inr (\<lparr>pd_security = pd_security db_pos, pd_direction = pd_direction db_pos,
                      pd_holding_price = - 1,
                      pd_quantity = quantity, pd_update_time = pd_update_time db_pos\<rparr> # rs))
         else Inl ValueError))"

text \<open>
  The outer loop (lines 276 to 308) over the non-default rows; the state is the pair of
  \<^verbatim>\<open>strat_positions\<close> and \<^verbatim>\<open>all_broker_positions\<close>.
\<close>

fun deduct_rows ::
  "int \<Rightarrow> position_row list \<Rightarrow> position_data list \<times> position_data list \<Rightarrow>
   error + position_data list \<times> position_data list" where
  "deduct_rows strat_balance_id [] st = Inr st"
| "deduct_rows strat_balance_id (row # rows) (strat_positions, all_broker_positions) =
     (case row_position_data row of
        Inl x \<Rightarrow> Inl x
      | Inr db_pos \<Rightarrow>
          (case deduct db_pos all_broker_positions of
             Inl x \<Rightarrow> Inl x
           | Inr bps \<Rightarrow>
               deduct_rows strat_balance_id rows
                 (if p_balance_id row = strat_balance_id then strat_positions @ [db_pos]
                  else strat_positions, bps)))"

text \<open>The first-time branch (lines 253 to 267): every broker position goes to the default row.\<close>

definition bootstrap_position :: "int \<Rightarrow> position_data list \<Rightarrow> engine \<Rightarrow> ledger \<Rightarrow> outcome" where
  "bootstrap_position default_balance_id all_broker_positions e l =
     Done (e\<lparr>db := Some (foldl (\<lambda>l' broker_position.
                  insert_position (position_row_of default_balance_id broker_position) l')
                l all_broker_positions),
             pf_position := []\<rparr>)"

text \<open>The reinsertion of the remainders (lines 315 to 326).\<close>

definition insert_remainders :: "int \<Rightarrow> position_data list \<Rightarrow> ledger \<Rightarrow> ledger" where
  "insert_remainders default_balance_id remainders l =
     foldl (\<lambda>l' broker_position.
        if pd_quantity broker_position > 0
        then insert_position (position_row_of default_balance_id broker_position) l'
        else l') l remainders"

text \<open>The subsequent-times branch (lines 270 to 329).\<close>

definition replace_default_positions ::
  "merge \<Rightarrow> int \<Rightarrow> int \<Rightarrow> position_row list \<Rightarrow> position_data list \<Rightarrow> engine \<Rightarrow> ledger \<Rightarrow> outcome" where
  "replace_default_positions mrg default_balance_id strat_balance_id position_df all_broker_positions e l =
     (let nondefault_position_df = filter (\<lambda>r. p_balance_id r \<noteq> default_balance_id) position_df
      in case deduct_rows strat_balance_id nondefault_position_df ([], all_broker_positions) of
           Inl x \<Rightarrow> Raised x e
         | Inr (strat_positions, remainders) \<Rightarrow>
             (let l2 = insert_remainders default_balance_id remainders
                         (delete_position (\<lambda>r. p_balance_id r = default_balance_id) l)
              in case get_db_position mrg l2 strat_balance_id of
                   Inl x \<Rightarrow> Raised x (e\<lparr>db := Some l2\<rparr>)
                 | Inr position \<Rightarrow>
                     Done (e\<lparr>db := Some l2,
                             pf_position := (case position of None \<Rightarrow> [] | Some pos \<Rightarrow> pos)\<rparr>)))"

text \<open>
  \<^verbatim>\<open>Engine.sync_broker_position\<close>; the broker's snapshot
  (\<^verbatim>\<open>get_all_broker_positions()\<close>) is an input.
\<close>

definition sync_broker_position :: "merge \<Rightarrow> position_data list option \<Rightarrow> engine \<Rightarrow> outcome" where
  "sync_broker_position mrg all_broker_positions e =
     (case all_broker_positions of
        None \<Rightarrow> Done e
      | Some bps \<Rightarrow>
          (case db e of
             None \<Rightarrow> Done (e\<lparr>pf_position := foldl (position_update mrg) (pf_position e) bps\<rparr>)
           | Some l \<Rightarrow>
               (let balance_df = select_records (of_account e) (balance_tbl l)
                in if balance_df = [] then Raised AssertionError e
                   else
                     (case filter (of_strategy (strategy_account e) (strategy_version e)) balance_df of
                        [] \<Rightarrow> Raised IndexError e
                      | srow # _ \<Rightarrow>
                          (let strat_balance_id = b_id srow;
                               balance_ids = map b_id balance_df;
                               position_df = select_records (\<lambda>r. p_balance_id r \<in> set balance_ids)
                                               (position_tbl l);
                               default_balance_df = filter (of_strategy ''default'' ''1.0'') balance_df
                           in case default_balance_df of
                                [d] \<Rightarrow>
                                  (if position_df = []
                                   then bootstrap_position (b_id d) bps e l
                                   else replace_default_positions mrg (b_id d) strat_balance_id
                                          position_df bps e l)
                              | _ \<Rightarrow> Raised AssertionError e)))))"

subsection \<open>Persistence\<close>

text \<open>The dictionary \<^verbatim>\<open>updates\<close>, field name to value, and its application to a row.\<close>

definition set_column :: "string \<times> rat \<Rightarrow> balance_row \<Rightarrow> balance_row" where
  "set_column u r =
     (if fst u = ''cash'' then r\<lparr>b_cash := snd u\<rparr>
      else if fst u = ''power'' then r\<lparr>b_power := snd u\<rparr>
      else if fst u = ''max_power_short'' then r\<lparr>b_max_power_short := snd u\<rparr>
      else if fst u = ''net_cash_power'' then r\<lparr>b_net_cash_power := snd u\<rparr>
      else r)"

definition balance_updates :: "account_balance \<Rightarrow> account_balance \<Rightarrow> (string \<times> rat) list" where
  "balance_updates ab db_balance =
     (if ab_cash ab \<noteq> ab_cash db_balance then [(''cash'', ab_cash ab)] else []) @
     (if ab_power ab \<noteq> ab_power db_balance then [(''power'', ab_power ab)] else []) @
     (if ab_max_power_short ab \<noteq> ab_max_power_short db_balance
      then [(''max_power_short'', ab_max_power_short ab)] else []) @
     (if ab_net_cash_power ab \<noteq> ab_net_cash_power db_balance
      then [(''net_cash_power'', ab_net_cash_power ab)] else [])"

text \<open>
  \<^verbatim>\<open>persist_account_balance\<close>. It runs in the persistence thread, which exists only when
  the engine has a ledger; without one, reading \<^verbatim>\<open>engine.db\<close> raises.
\<close>

definition persist_account_balance :: "engine \<Rightarrow> outcome" where
  "persist_account_balance e =
     (case db e of
        None \<Rightarrow> Raised AttributeError e
      | Some l \<Rightarrow>
          (case get_db_balance e l (strategy_account e) (strategy_version e) of
             Inl x \<Rightarrow> Raised x e
           | Inr None \<Rightarrow> Done e
           | Inr (Some db_balance) \<Rightarrow>
               (case pf_account_balance e of
                  None \<Rightarrow> Raised AttributeError e
                | Some ab \<Rightarrow>
                    (let updates = balance_updates ab db_balance
                     in if updates \<noteq> []
                        then Done (e\<lparr>db := Some (update_balance
                                     (of_strategy (strategy_account e) (strategy_version e))
                                     (\<lambda>r. fold set_column updates r) l)\<rparr>)
                        else Done e))))"

text \<open>
  \<^verbatim>\<open>persist_position\<close>. The test \<^verbatim>\<open>if db_position:\<close> is taken as the test that
  \<^verbatim>\<open>get_db_position\<close> returned a Position and not \<^verbatim>\<open>None\<close>.
\<close>

definition persist_position :: "merge \<Rightarrow> engine \<Rightarrow> outcome" where
  "persist_position mrg e =
     (case db e of
        None \<Rightarrow> Raised AttributeError e
      | Some l \<Rightarrow>
          (case select_records
                  (\<lambda>r. of_account e r \<and> of_strategy (strategy_account e) (strategy_version e) r)
                  (balance_tbl l) of
             [] \<Rightarrow> Done e
           | [r] \<Rightarrow>
               (let balance_id = b_id r
                in case get_db_position mrg l balance_id of
                     Inl x \<Rightarrow> Raised x e
                   | Inr db_position \<Rightarrow>
                       Done (e\<lparr>db := Some (foldl (\<lambda>l' position_data.
                                  insert_position (position_row_of balance_id position_data) l')
                                (if db_position \<noteq> None
                                 then delete_position (\<lambda>r. p_balance_id r = balance_id) l
                                 else l)
                                (get_all_positions (pf_position e)))\<rparr>))
           | _ \<Rightarrow> Raised AssertionError e))"

text \<open>
  One round of the loop of \<^verbatim>\<open>persist_data\<close> (lines 495 to 497): the balance, then the
  positions. An exception in the first ends the round.
\<close>

definition persist_step :: "merge \<Rightarrow> engine \<Rightarrow> outcome" where
  "persist_step mrg e =
     (case persist_account_balance e of
        Done e1 \<Rightarrow> persist_position mrg e1
      | Raised x e1 \<Rightarrow> Raised x e1)"

section \<open>Vocabulary of the properties\<close>

text \<open>
  The rows of the engine's broker account (the selection both syncs start from), and the
  rows that share their \<^verbatim>\<open>broker_account_id\<close>.
\<close>

definition account_rows :: "engine \<Rightarrow> ledger \<Rightarrow> balance_row list" where
  "account_rows e l = select_records (of_account e) (balance_tbl l)"

definition group_rows :: "engine \<Rightarrow> ledger \<Rightarrow> balance_row list" where
  "group_rows e l =
     filter (\<lambda>r. b_broker_account_id r \<in> set (map b_broker_account_id (account_rows e l)))
       (balance_tbl l)"

text \<open>The broker account a balance row belongs to.\<close>

definition account_key :: "balance_row \<Rightarrow> string \<times> string \<times> string" where
  "account_key r = (b_broker_name r, b_broker_environment r, b_broker_account r)"

text \<open>
  A well-formed ledger: the ids of the balance table are unique (it is the primary key),
  and two balance rows have the same \<^verbatim>\<open>broker_account_id\<close> exactly when they belong to
  the same broker account.
\<close>

definition wf_ledger :: "ledger \<Rightarrow> bool" where
  "wf_ledger l =
     (distinct (map b_id (balance_tbl l)) \<and>
      (\<forall>r1 \<in> set (balance_tbl l). \<forall>r2 \<in> set (balance_tbl l).
         (b_broker_account_id r1 = b_broker_account_id r2) = (account_key r1 = account_key r2)))"

text \<open>The columns of a balance row that well-formedness looks at.\<close>

definition shape :: "balance_row \<Rightarrow> int \<times> int \<times> string \<times> string \<times> string" where
  "shape r = (b_id r, b_broker_account_id r, account_key r)"

text \<open>A sequence of balance syncs, one per snapshot, up to the first call that raises.\<close>

fun sync_balance_seq :: "engine \<Rightarrow> (datetime \<times> account_balance) list \<Rightarrow> outcome" where
  "sync_balance_seq e [] = Done e"
| "sync_balance_seq e ((now, bb) # rest) =
     (case sync_broker_balance now (Some bb) e of
        Done e' \<Rightarrow> sync_balance_seq e' rest
      | Raised x e' \<Rightarrow> Raised x e')"

text \<open>
  Float operations that do not round: a subtraction, an addition, and the sum of a
  column as Python computes it.
\<close>

definition exact_sub :: "rat \<Rightarrow> rat \<Rightarrow> bool" where
  "exact_sub x y = (fl_sub x y = x - y)"

definition exact_add :: "rat \<Rightarrow> rat \<Rightarrow> bool" where
  "exact_add x y = (fl_add x y = x + y)"

definition exact_column :: "rat list \<Rightarrow> bool" where
  "exact_column xs = (fsum xs = sum_list xs)"

text \<open>
  The float operations of one round of the loop over the fields do not round: the sum of
  the column, the subtraction that gives the delta, and the addition of the delta to the
  first default row's value.
\<close>

definition exact_delta ::
  "(account_balance \<Rightarrow> rat) \<Rightarrow> (balance_row \<Rightarrow> rat) \<Rightarrow> account_balance \<Rightarrow> balance_row list \<Rightarrow> bool" where
  "exact_delta bget rget bb df =
     (case filter (\<lambda>r. b_strategy_account r = ''default'') df of
        [] \<Rightarrow> True
      | dflt # _ \<Rightarrow>
          exact_column (map rget df) \<and>
          exact_sub (bget bb) (fsum (map rget df)) \<and>
          exact_add (rget dflt) (fl_sub (bget bb) (fsum (map rget df))))"

text \<open>
  No float operation of a balance sync rounds: in the first-time branch the two
  subtractions broker minus local, in the subsequent-times branch the operations of both
  rounds of the loop, and in both branches the sums of the cash and power columns of the
  account's rows as the call leaves them.
\<close>

definition exact_sync :: "datetime \<Rightarrow> account_balance \<Rightarrow> engine \<Rightarrow> bool" where
  "exact_sync now bb e =
     (case db e of
        None \<Rightarrow> True
      | Some l \<Rightarrow>
          (let e' = state_of (sync_broker_balance now (Some bb) e);
               df' = (case db e' of None \<Rightarrow> [] | Some l' \<Rightarrow> account_rows e' l')
           in exact_column (map b_cash df') \<and> exact_column (map b_power df') \<and>
              (if account_rows e l = []
               then (case pf_account_balance e of
                       None \<Rightarrow> True
                     | Some local \<Rightarrow>
                         exact_sub (ab_cash bb) (ab_cash local) \<and>
                         exact_sub (ab_power bb) (ab_power local))
               else exact_delta ab_cash b_cash bb (account_rows e l) \<and>
                    exact_delta ab_power b_power bb (account_rows e l))))"

fun exact_syncs :: "engine \<Rightarrow> (datetime \<times> account_balance) list \<Rightarrow> bool" where
  "exact_syncs e [] = True"
| "exact_syncs e ((now, bb) # rest) =
     (exact_sync now bb e \<and>
      (case sync_broker_balance now (Some bb) e of
         Done e' \<Rightarrow> exact_syncs e' rest
       | Raised x e' \<Rightarrow> True))"



text \<open>A ledger without a position row of quantity 0.\<close>

definition no_zero_quantity :: "ledger \<Rightarrow> bool" where
  "no_zero_quantity l = (\<forall>r \<in> set (position_tbl l). p_quantity r \<noteq> 0)"

text \<open>The row \<open>r\<close> is what an insert of \<open>pd\<close> under \<open>balance_id\<close> writes, up to its id.\<close>

definition row_for :: "int \<Rightarrow> position_row \<Rightarrow> position_data \<Rightarrow> bool" where
  "row_for balance_id r pd = (r\<lparr>p_id := 0\<rparr> = position_row_of balance_id pd)"

text \<open>
  The invariant of the in-memory position table: every entry is filed under its own key,
  and keys are unique.
\<close>

definition position_inv :: "position \<Rightarrow> bool" where
  "position_inv pos = (distinct (map fst pos) \<and> (\<forall>kv \<in> set pos. fst kv = pd_key (snd kv)))"

text \<open>
  A position whose timestamp has no fraction of a second, and the in-memory position
  tables that hold such positions only.
\<close>

definition whole_second :: "position_data \<Rightarrow> bool" where
  "whole_second pd = (pd_update_time pd mod 1000000 = 0)"

definition whole_seconds :: "position \<Rightarrow> bool" where
  "whole_seconds pos = list_all whole_second (get_all_positions pos)"

text \<open>
  A position row that \<^verbatim>\<open>get_db_position\<close> can read (its direction column holds a
  direction name, its timestamp has no fraction of a second), and a ledger whose position
  rows of a balance id are all of this kind.
\<close>

definition readable_row :: "position_row \<Rightarrow> bool" where
  "readable_row row =
     (p_direction row \<in> {''LONG'', ''SHORT'', ''NET''} \<and> p_update_time row mod 1000000 = 0)"

definition valid_position_rows :: "ledger \<Rightarrow> int \<Rightarrow> bool" where
  "valid_position_rows l balance_id =
     list_all readable_row (filter (\<lambda>row. p_balance_id row = balance_id) (position_tbl l))"

subsection \<open>Scenarios\<close>

text \<open>A balance with the given cash and power.\<close>

definition balance_of :: "rat \<Rightarrow> rat \<Rightarrow> account_balance" where
  "balance_of c p = \<lparr>ab_cash = c, ab_power = p, ab_max_power_short = - 1, ab_net_cash_power = - 1\<rparr>"

text \<open>A fresh strategy in front of an empty ledger, and two broker snapshots.\<close>

definition engine0 :: engine where
  "engine0 =
     \<lparr>broker_name = ''FUTU'', broker_environment = ''SIMULATE'', broker_account = ''acc'',
      strategy_account = ''alpha'', strategy_version = ''1.0'', db = Some empty_ledger,
      pf_account_balance = Some \<lparr>ab_cash = 300, ab_power = 500, ab_max_power_short = - 1,
                                  ab_net_cash_power = - 1\<rparr>,
      pf_position = []\<rparr>"

definition snaps0 :: "(datetime \<times> account_balance) list" where
  "snaps0 = [(0, balance_of 1000 2000), (5, balance_of 1200 2100)]"

text \<open>The ledger that the first sync of \<open>engine0\<close> leaves, and the engine after it.\<close>

definition default1 :: balance_row where
  "default1 =
     \<lparr>b_id = 1, b_broker_name = ''FUTU'', b_broker_environment = ''SIMULATE'',
      b_broker_account = ''acc'', b_broker_account_id = 1,
      b_strategy_account = ''default'', b_strategy_account_id = 1,
      b_strategy_version = ''1.0'', b_strategy_version_desc = ''manual trading'',
      b_strategy_status = ''active'', b_cash = 700, b_power = 1500,
      b_max_power_short = - 1, b_net_cash_power = - 1, b_update_time = 0,
      b_remark = ''N/A''\<rparr>"

definition strategy1 :: balance_row where
  "strategy1 =
     \<lparr>b_id = 2, b_broker_name = ''FUTU'', b_broker_environment = ''SIMULATE'',
      b_broker_account = ''acc'', b_broker_account_id = 1,
      b_strategy_account = ''alpha'', b_strategy_account_id = 2,
      b_strategy_version = ''1.0'', b_strategy_version_desc = '''',
      b_strategy_status = ''active'', b_cash = 300, b_power = 500,
      b_max_power_short = - 1, b_net_cash_power = - 1, b_update_time = 0,
      b_remark = ''N/A''\<rparr>"

definition ledger1 :: ledger where
  "ledger1 = \<lparr>balance_tbl = [default1, strategy1], position_tbl = [], writes = 2\<rparr>"

definition engine1 :: engine where
  "engine1 = state_of (sync_broker_balance 0 (Some (balance_of 1000 2000)) engine0)"

text \<open>
  The floats \<open>0.9\<close>, \<open>0.2\<close>, \<open>0.7\<close>, \<open>0.8999999999999999\<close> and \<open>0.7000000000000001\<close>,
  that is, the floats nearest to these decimals.
\<close>

definition f09 :: rat where
  "f09 = 8106479329266893 / 9007199254740992"

definition f02 :: rat where
  "f02 = 3602879701896397 / 18014398509481984"

definition f07 :: rat where
  "f07 = 3152519739159347 / 4503599627370496"

definition f089 :: rat where
  "f089 = 2026619832316723 / 2251799813685248"

definition f07up :: rat where
  "f07up = 6305039478318695 / 9007199254740992"

text \<open>
  A fresh strategy whose local balance is \<open>0.2\<close> in front of an empty ledger, and the
  engine after its first sync with a broker that reports \<open>0.9\<close>.
\<close>

definition engine_f :: engine where
  "engine_f = engine0\<lparr>pf_account_balance := Some (balance_of f02 f02)\<rparr>"

definition engine_f1 :: engine where
  "engine_f1 = state_of (sync_broker_balance 0 (Some (balance_of f09 f09)) engine_f)"

text \<open>One way of combining two entries of a key: the new entry replaces the old one.\<close>

definition keep_new :: merge where
  "keep_new old new = new"

text \<open>
  Broker positions, and the strategy's position of 40 at the price 8 as a row and as
  data. The timestamps are whole seconds.
\<close>

definition pos_a :: position_data where
  "pos_a = \<lparr>pd_security = \<lparr>code = ''HK.00700'', stock_name = ''TENCENT''\<rparr>, pd_direction = LONG,
            pd_holding_price = 10, pd_quantity = 100, pd_update_time = 0\<rparr>"

definition pos_b :: position_data where
  "pos_b = \<lparr>pd_security = \<lparr>code = ''HK.00005'', stock_name = ''HSBC''\<rparr>, pd_direction = LONG,
            pd_holding_price = 60, pd_quantity = 50, pd_update_time = 4000000\<rparr>"

definition pos40 :: position_data where
  "pos40 = \<lparr>pd_security = \<lparr>code = ''HK.00700'', stock_name = ''TENCENT''\<rparr>, pd_direction = LONG,
            pd_holding_price = 8, pd_quantity = 40, pd_update_time = 3000000\<rparr>"

definition row40 :: position_row where
  "row40 = \<lparr>p_id = 1, p_balance_id = 2, p_security_code = ''HK.00700'', p_security_name = ''TENCENT'',
             p_direction = ''LONG'', p_holding_price = 8, p_quantity = 40, p_update_time = 3000000\<rparr>"


text \<open>The engine after the first position sync, which files \<open>pos_a\<close> under the default row.\<close>

definition engine2 :: engine where
  "engine2 = state_of (sync_broker_position keep_new (Some [pos_a]) engine1)"

text \<open>The engine whose ledger holds one position row, owned by the strategy.\<close>

definition engine3 :: engine where
  "engine3 = engine1\<lparr>db := Some (ledger1\<lparr>position_tbl := [row40]\<rparr>)\<rparr>"

text \<open>The engine of \<open>engine2\<close> after trading: a new balance and one position in memory.\<close>

definition engine4 :: engine where
  "engine4 = engine2\<lparr>pf_account_balance := Some (balance_of 250 400),
                     pf_position := [(pd_key pos_b, pos_b)]\<rparr>"

text \<open>The same engine with a position whose timestamp has half a second.\<close>

definition engine5 :: engine where
  "engine5 = engine4\<lparr>pf_position := [(pd_key pos_b, pos_b\<lparr>pd_update_time := 4500000\<rparr>)]\<rparr>"

section \<open>Properties\<close>

subsection \<open>Facts about the float operations\<close>

lemma fl_zero [simp]: "fl 0 = 0"
  by (simp add: fl_def)

lemma fl_sub_self [simp]: "fl_sub x x = 0"
  by (simp add: fl_sub_def)

lemma fsum_Nil [simp]: "fsum [] = 0"
  by (simp add: fsum_def)

lemma round_even_of_int: "round_even (of_int m) = m"
  by (simp add: round_even_def)

lemma fl_of_int:
  assumes "\<bar>n\<bar> < 2 ^ 53"
  shows "fl (of_int n) = of_int n"
proof (cases "n = 0")
  case True
  then show ?thesis by simp
next
  case False
  define e where "e = ilog2 \<bar>of_int n\<bar> - 52"
  define k where "k = nat (- e)"
  from False have pos: "0 < \<bar>n\<bar>" by simp
  then have "1 \<le> \<bar>n\<bar>" by simp
  then have "(1::rat) \<le> of_int \<bar>n\<bar>" by (simp only: of_int_1_le_iff)
  then have ge1: "(1::rat) \<le> \<bar>of_int n\<bar>" by simp
  have "\<lfloor>\<bar>of_int n :: rat\<bar>\<rfloor> = \<bar>n\<bar>"
    by (simp only: of_int_abs [symmetric] floor_of_int)
  then have "ilog2 \<bar>of_int n\<bar> = bitlen \<bar>n\<bar> - 1"
    using ge1 by (simp only: ilog2_def if_True)
  moreover have "bitlen \<bar>n\<bar> \<le> 53"
    using assms by (subst bitlen_le_iff_power) simp_all
  ultimately have e0: "e \<le> 0" by (simp add: e_def)
  then have p: "pow2 e = 1 / 2 ^ k" by (auto simp: pow2_def k_def)
  have "of_int n / pow2 e = (of_int (n * 2 ^ k) :: rat)" by (simp add: p)
  then have "round_even (of_int n / pow2 e) = n * 2 ^ k" by (simp only: round_even_of_int)
  then have "fl (of_int n) = of_int (n * 2 ^ k) * pow2 e"
    using False by (simp add: fl_def e_def [symmetric] Let_def)
  then show ?thesis by (simp add: p)
qed

lemma fl_numeral: "numeral k < (2::int) ^ 53 \<Longrightarrow> fl (numeral k) = numeral k"
  using fl_of_int [of "numeral k"] by simp

lemma fl_neg_numeral: "numeral k < (2::int) ^ 53 \<Longrightarrow> fl (- numeral k) = - numeral k"
  using fl_of_int [of "- numeral k"] by simp

lemma fl_one [simp]: "fl 1 = 1"
  using fl_of_int [of 1] by simp

lemmas float_eval =
  fl_add_def fl_sub_def fl_mul_def fsum_def fl_numeral fl_neg_numeral


lemma float_scenario:
  "fl f09 = f09" "fl f02 = f02" "fl f07 = f07" "fl f07up = f07up"
  "fl (f09 - f02) = f07" "fl (f07 + f02) = f089" "fl (f09 - f089) = 1 / 9007199254740992"
  "fl (f07 + 1 / 9007199254740992) = f07up"
  by code_simp+

lemma float_scenario_order:
  "0 \<le> f07" "0 \<le> f07up" "f089 \<noteq> f09" "f07 + f02 \<noteq> f09" "f07up \<noteq> f07"
  "f09 - f02 \<noteq> f07"
  by (simp_all add: f09_def f02_def f07_def f089_def f07up_def)

subsection \<open>Facts about the balance sync\<close>

lemma next_id_simps: "next_id [] = 1" "next_id (x # xs) = Max (set (x # xs)) + 1"
  by (simp_all add: next_id_def)

lemma of_account_key: "of_account e r = (account_key r = (broker_name e, broker_environment e, broker_account e))"
  by (auto simp: of_account_def account_key_def)

lemma of_account_upd [simp]:
  "of_account (e\<lparr>db := x\<rparr>) = of_account e"
  "of_account (e\<lparr>pf_account_balance := y\<rparr>) = of_account e"
  "of_account (e\<lparr>pf_position := z\<rparr>) = of_account e"
  by (simp_all add: of_account_def fun_eq_iff)

lemma group_rows_eq:
  assumes "wf_ledger l"
  shows "group_rows e l = account_rows e l"
proof -
  have "\<And>r. r \<in> set (balance_tbl l) \<Longrightarrow>
     (b_broker_account_id r \<in> set (map b_broker_account_id (account_rows e l))) = of_account e r"
  proof -
    fix r assume r: "r \<in> set (balance_tbl l)"
    show "(b_broker_account_id r \<in> set (map b_broker_account_id (account_rows e l))) = of_account e r"
    proof
      assume "b_broker_account_id r \<in> set (map b_broker_account_id (account_rows e l))"
      then obtain r' where r': "r' \<in> set (balance_tbl l)" "of_account e r'"
        "b_broker_account_id r = b_broker_account_id r'"
        by (auto simp: account_rows_def select_records_def)
      with assms r have "account_key r = account_key r'"
        unfolding wf_ledger_def by blast
      with r'(2) show "of_account e r" by (simp add: of_account_key)
    next
      assume "of_account e r"
      with r show "b_broker_account_id r \<in> set (map b_broker_account_id (account_rows e l))"
        by (auto simp: account_rows_def select_records_def)
    qed
  qed
  then show ?thesis
    unfolding group_rows_def account_rows_def select_records_def
    by (intro filter_cong) auto
qed

lemma map_upd_other:
  "(\<And>r. f (h r) = f r) \<Longrightarrow> map f (map (\<lambda>r. if Q r then h r else r) rows) = map f rows"
  by (induction rows) auto

lemma upd_absent:
  "i \<notin> b_id ` set rows \<Longrightarrow> map (\<lambda>r. if b_id r = i then h r else r) rows = rows"
  by (induction rows) auto

lemma sum_upd:
  fixes f :: "balance_row \<Rightarrow> rat"
  assumes "distinct (map b_id rows)" "d \<in> set rows"
  shows "sum_list (map f (map (\<lambda>r. if b_id r = b_id d then h r else r) rows)) =
         sum_list (map f rows) - f d + f (h d)"
  using assms
proof (induction rows)
  case Nil
  then show ?case by simp
next
  case (Cons r rows)
  show ?case
  proof (cases "r = d")
    case True
    with Cons.prems have "b_id d \<notin> b_id ` set rows" by auto
    then show ?thesis using True by (simp add: upd_absent)
  next
    case False
    with Cons.prems have d: "d \<in> set rows" and ne: "b_id r \<noteq> b_id d"
      by (auto simp: image_iff)
    with Cons show ?thesis by simp
  qed
qed

lemma filter_upd:
  "(\<And>r. P (h r) = P r) \<Longrightarrow>
   filter P (map (\<lambda>r. if Q r then h r else r) rows) = map (\<lambda>r. if Q r then h r else r) (filter P rows)"
  by (induction rows) auto

lemma sync_field_tbl:
  assumes "sync_field bget rget rset bb df dflt l = Inr l'"
  shows "(fl_sub (bget bb) (fsum (map rget df)) = 0 \<and> l' = l) \<or>
         (fl_sub (bget bb) (fsum (map rget df)) \<noteq> 0 \<and>
          balance_tbl l' = map (\<lambda>r. if b_id r = b_id dflt
              then rset (fl_add (rget dflt) (fl_sub (bget bb) (fsum (map rget df)))) r else r)
            (balance_tbl l) \<and>
          position_tbl l' = position_tbl l)"
  using assms by (auto simp: sync_field_def Let_def update_balance_def split: if_splits)

lemma sync_field_keeps:
  assumes "sync_field bget rget rset bb df dflt l = Inr l'"
    and "\<And>v r. g (rset v r) = g r"
  shows "map g (balance_tbl l') = map g (balance_tbl l)"
  using sync_field_tbl [OF assms(1)] assms(2) by (auto simp: map_upd_other)

lemma sync_field_keeps_filter:
  assumes "sync_field bget rget rset bb df dflt l = Inr l'"
    and "\<And>v r. g (rset v r) = g r" and "\<And>v r. P (rset v r) = P r"
  shows "map g (filter P (balance_tbl l')) = map g (filter P (balance_tbl l))"
  using sync_field_tbl [OF assms(1)] assms(2,3) by (auto simp: map_upd_other filter_upd)

lemma sync_field_sum:
  assumes ok: "sync_field bget rget rset bb df dflt l = Inr l'"
    and dist: "distinct (map b_id (balance_tbl l))"
    and ids: "map b_id (filter P (balance_tbl l)) = map b_id df"
    and col: "map rget (filter P (balance_tbl l)) = map rget df"
    and d: "dflt \<in> set df"
    and rset: "\<And>v r. rget (rset v r) = v" "\<And>v r. P (rset v r) = P r"
    and ex: "exact_column (map rget df)" "exact_sub (bget bb) (fsum (map rget df))"
      "exact_add (rget dflt) (fl_sub (bget bb) (fsum (map rget df)))"
  shows "sum_list (map rget (filter P (balance_tbl l'))) = bget bb"
proof -
  let ?X = "filter P (balance_tbl l)"
  let ?delta = "fl_sub (bget bb) (fsum (map rget df))"
  let ?v = "fl_add (rget dflt) ?delta"
  have S: "fsum (map rget df) = sum_list (map rget df)" using ex(1) by (simp add: exact_column_def)
  have delta: "?delta = bget bb - sum_list (map rget df)"
    using ex(2) S by (simp add: exact_sub_def)
  have v: "?v = rget dflt + ?delta" using ex(3) by (simp add: exact_add_def)
  from sync_field_tbl [OF ok] show ?thesis
  proof
    assume "?delta = 0 \<and> l' = l"
    then show ?thesis using col delta by simp
  next
    assume a: "?delta \<noteq> 0 \<and>
          balance_tbl l' = map (\<lambda>r. if b_id r = b_id dflt then rset ?v r else r) (balance_tbl l) \<and>
          position_tbl l' = position_tbl l"
    from d obtain i where i: "i < length df" "df ! i = dflt"
      by (auto simp: in_set_conv_nth)
    have len: "length ?X = length df" using ids by (metis length_map)
    define d' where "d' = ?X ! i"
    have d'in: "d' \<in> set ?X" unfolding d'_def using i len by (intro nth_mem) simp
    have "b_id d' = map b_id ?X ! i" using i len by (simp add: d'_def)
    then have d'id: "b_id d' = b_id dflt" using ids i by simp
    have "rget d' = map rget ?X ! i" using i len by (simp add: d'_def)
    then have d'val: "rget d' = rget dflt" using col i by simp
    have distX: "distinct (map b_id ?X)" using dist by (rule distinct_map_filter)
    have "filter P (balance_tbl l') = map (\<lambda>r. if b_id r = b_id d' then rset ?v r else r) ?X"
      using a rset(2) d'id by (simp add: filter_upd)
    then have "sum_list (map rget (filter P (balance_tbl l'))) =
        sum_list (map rget ?X) - rget d' + rget (rset ?v d')"
      using sum_upd [OF distX d'in] by simp
    then show ?thesis using col d'val rset(1) v delta by simp
  qed
qed

lemma wf_ledger_shape:
  "wf_ledger l =
     (distinct (map fst (map shape (balance_tbl l))) \<and>
      (\<forall>s1 \<in> set (map shape (balance_tbl l)). \<forall>s2 \<in> set (map shape (balance_tbl l)).
         (fst (snd s1) = fst (snd s2)) = (snd (snd s1) = snd (snd s2))))"
  by (simp add: wf_ledger_def shape_def comp_def)

lemma wf_ledger_cong:
  "map shape (balance_tbl l') = map shape (balance_tbl l) \<Longrightarrow> wf_ledger l' = wf_ledger l"
  by (simp only: wf_ledger_shape)

lemma reload_balance_Done:
  assumes "reload_balance e l = Done e'"
  shows "db e' = Some l" and "of_account e' = of_account e"
  using assms by (auto simp: reload_balance_def split: sum.splits)

lemma exact_deltaD:
  assumes "exact_delta bget rget bb df"
    and "filter (\<lambda>r. b_strategy_account r = ''default'') df = dflt # ds"
  shows "exact_column (map rget df)" and "exact_sub (bget bb) (fsum (map rget df))"
    and "exact_add (rget dflt) (fl_sub (bget bb) (fsum (map rget df)))"
  using assms by (simp_all add: exact_delta_def)

lemma update_default_step:
  assumes dist: "distinct (map b_id (balance_tbl l))"
    and df: "df = filter (of_account e) (balance_tbl l)"
    and ok: "update_default bb e l df = Done e'"
    and exc: "exact_delta ab_cash b_cash bb df" and exp: "exact_delta ab_power b_power bb df"
  shows "\<exists>l'. db e' = Some l' \<and> of_account e' = of_account e \<and>
           map shape (balance_tbl l') = map shape (balance_tbl l) \<and>
           sum_list (map b_cash (filter (of_account e) (balance_tbl l'))) = ab_cash bb \<and>
           sum_list (map b_power (filter (of_account e) (balance_tbl l'))) = ab_power bb"
proof -
  let ?P = "of_account e"
  from ok obtain dflt ds where ds: "filter (\<lambda>r. b_strategy_account r = ''default'') df = dflt # ds"
    by (auto simp: update_default_def split: list.splits)
  then have din: "dflt \<in> set df"
    by (metis filter_is_subset list.set_intros(1) subsetD)
  from ok ds obtain l1 l2 where
    l1: "sync_field ab_cash b_cash (\<lambda>v r. r\<lparr>b_cash := v\<rparr>) bb df dflt l = Inr l1" and
    l2: "sync_field ab_power b_power (\<lambda>v r. r\<lparr>b_power := v\<rparr>) bb df dflt l1 = Inr l2" and
    re: "reload_balance e l2 = Done e'"
    by (auto simp: update_default_def split: sum.splits)
  have P1: "\<And>v r. ?P (r\<lparr>b_cash := v\<rparr>) = ?P r" and P2: "\<And>v r. ?P (r\<lparr>b_power := v\<rparr>) = ?P r"
    by (simp_all add: of_account_def)
  have cash1: "sum_list (map b_cash (filter ?P (balance_tbl l1))) = ab_cash bb"
    by (rule sync_field_sum [OF l1 dist _ _ din _ _ exact_deltaD [OF exc ds]]) (simp_all add: df P1)
  have sh1: "map shape (balance_tbl l1) = map shape (balance_tbl l)"
    by (rule sync_field_keeps [OF l1]) (simp add: shape_def account_key_def)
  have sh2: "map shape (balance_tbl l2) = map shape (balance_tbl l1)"
    by (rule sync_field_keeps [OF l2]) (simp add: shape_def account_key_def)
  have "map fst (map shape (balance_tbl l1)) = map fst (map shape (balance_tbl l))"
    using sh1 by simp
  then have ids1: "map b_id (balance_tbl l1) = map b_id (balance_tbl l)"
    by (simp add: shape_def comp_def)
  then have dist1: "distinct (map b_id (balance_tbl l1))" using dist by simp
  have idf1: "map b_id (filter ?P (balance_tbl l1)) = map b_id df"
    unfolding df by (rule sync_field_keeps_filter [OF l1]) (simp_all add: P1)
  have pw1: "map b_power (filter ?P (balance_tbl l1)) = map b_power df"
    unfolding df by (rule sync_field_keeps_filter [OF l1]) (simp_all add: P1)
  have power2: "sum_list (map b_power (filter ?P (balance_tbl l2))) = ab_power bb"
    by (rule sync_field_sum [OF l2 dist1 idf1 pw1 din _ _ exact_deltaD [OF exp ds]])
      (simp_all add: P2)
  have "map b_cash (filter ?P (balance_tbl l2)) = map b_cash (filter ?P (balance_tbl l1))"
    by (rule sync_field_keeps_filter [OF l2]) (simp_all add: P2)
  then have cash2: "sum_list (map b_cash (filter ?P (balance_tbl l2))) = ab_cash bb"
    using cash1 by simp
  show ?thesis
    using reload_balance_Done [OF re] sh1 sh2 cash2 power2 by simp
qed

lemma next_id_fresh: "next_id ids \<notin> set ids"
proof (cases "ids = []")
  case True
  then show ?thesis by simp
next
  case False
  have "\<And>i. i \<in> set ids \<Longrightarrow> i \<le> Max (set ids)" by simp
  then show ?thesis using False by (fastforce simp: next_id_def)
qed

lemma bootstrap_balance_step:
  assumes wf: "wf_ledger l"
    and df: "filter (of_account e) (balance_tbl l) = []"
    and ok: "bootstrap_balance now bb e l = Done e'"
    and ex: "\<And>local. pf_account_balance e = Some local \<Longrightarrow>
               exact_sub (ab_cash bb) (ab_cash local) \<and> exact_sub (ab_power bb) (ab_power local)"
  shows "\<exists>l'. db e' = Some l' \<and> of_account e' = of_account e \<and> wf_ledger l' \<and>
           sum_list (map b_cash (filter (of_account e) (balance_tbl l'))) = ab_cash bb \<and>
           sum_list (map b_power (filter (of_account e) (balance_tbl l'))) = ab_power bb"
proof -
  let ?T = "balance_tbl l"
  define baid where "baid = (if ?T = [] then 1 else Max (set (map b_broker_account_id ?T)) + 1)"
  define said where "said = (if ?T = [] then 1 else Max (set (map b_strategy_account_id ?T)) + 1)"
  from ok obtain local where local: "pf_account_balance e = Some local"
    by (auto simp: bootstrap_balance_def Let_def split: option.splits)
  define d where "d = default_row e now baid said (fl_sub (ab_cash bb) (ab_cash local))
    (fl_sub (ab_power bb) (ab_power local))"
  define s where "s = strategy_row e now baid (said + 1) (ab_cash local) (ab_power local)"
  define l' where "l' = insert_balance s (insert_balance d l)"
  from ok local have re: "reload_balance e l' = Done e'"
    by (auto simp: bootstrap_balance_def Let_def l'_def d_def s_def baid_def said_def split: if_splits)
  define d' where "d' = d\<lparr>b_id := next_id (map b_id ?T)\<rparr>"
  define s' where "s' = s\<lparr>b_id := next_id (map b_id (?T @ [d']))\<rparr>"
  have T': "balance_tbl l' = ?T @ [d', s']"
    by (simp add: l'_def insert_balance_def d'_def s'_def)
  have acc: "of_account e d'" "of_account e s'"
    by (simp_all add: d'_def s'_def d_def s_def default_row_def strategy_row_def of_account_def)
  have old: "\<And>r. r \<in> set ?T \<Longrightarrow> \<not> of_account e r"
    using df by (simp add: filter_empty_conv)
  have baid_d: "b_broker_account_id d' = baid" "b_broker_account_id s' = baid"
    by (simp_all add: d'_def s'_def d_def s_def default_row_def strategy_row_def)
  have baid_old: "\<And>r. r \<in> set ?T \<Longrightarrow> b_broker_account_id r \<noteq> baid"
  proof -
    fix r assume r: "r \<in> set ?T"
    then have "b_broker_account_id r \<le> Max (set (map b_broker_account_id ?T))" by simp
    moreover from r have "?T \<noteq> []" by auto
    ultimately show "b_broker_account_id r \<noteq> baid" by (simp add: baid_def)
  qed
  have key_new: "account_key d' = (broker_name e, broker_environment e, broker_account e)"
    "account_key s' = (broker_name e, broker_environment e, broker_account e)"
    using acc by (simp_all add: of_account_key)
  have key_old: "\<And>r. r \<in> set ?T \<Longrightarrow> account_key r \<noteq> (broker_name e, broker_environment e, broker_account e)"
    using old by (simp add: of_account_key)
  have id1: "b_id d' \<notin> set (map b_id ?T)"
    unfolding d'_def using next_id_fresh [of "map b_id ?T"] by simp
  have id2: "b_id s' \<notin> set (map b_id (?T @ [d']))"
    unfolding s'_def using next_id_fresh [of "map b_id (?T @ [d'])"] by simp
  have dist: "distinct (map b_id (balance_tbl l'))"
    using wf id1 id2 by (auto simp: T' wf_ledger_def)
  have grp: "\<forall>r1 \<in> set (balance_tbl l'). \<forall>r2 \<in> set (balance_tbl l').
         (b_broker_account_id r1 = b_broker_account_id r2) = (account_key r1 = account_key r2)"
    using wf baid_d baid_old key_new key_old
    unfolding T' wf_ledger_def by (auto simp: eq_commute)
  have wf': "wf_ledger l'" using dist grp by (simp add: wf_ledger_def)
  have flt: "filter (of_account e) (balance_tbl l') = [d', s']"
    using df acc by (simp add: T')
  have "b_cash d' = fl_sub (ab_cash bb) (ab_cash local)"
    "b_power d' = fl_sub (ab_power bb) (ab_power local)"
    by (simp_all add: d'_def d_def default_row_def)
  with ex [OF local] have vals: "b_cash d' = ab_cash bb - ab_cash local" "b_cash s' = ab_cash local"
    "b_power d' = ab_power bb - ab_power local" "b_power s' = ab_power local"
    by (simp_all add: exact_sub_def s'_def s_def strategy_row_def)
  show ?thesis
    using reload_balance_Done [OF re] wf' by (simp add: flt vals)
qed

lemma exact_syncD:
  assumes "exact_sync now bb e" and "db e = Some l"
    and "sync_broker_balance now (Some bb) e = Done e'" and "db e' = Some l'"
  shows "exact_column (map b_cash (account_rows e' l'))"
    and "exact_column (map b_power (account_rows e' l'))"
    and "account_rows e l = [] \<Longrightarrow> pf_account_balance e = Some local \<Longrightarrow>
           exact_sub (ab_cash bb) (ab_cash local) \<and> exact_sub (ab_power bb) (ab_power local)"
    and "account_rows e l \<noteq> [] \<Longrightarrow>
           exact_delta ab_cash b_cash bb (account_rows e l) \<and>
           exact_delta ab_power b_power bb (account_rows e l)"
  using assms by (auto simp: exact_sync_def Let_def)

lemma sync_broker_balance_step:
  assumes wf: "wf_ledger l" and db: "db e = Some l"
    and ok: "sync_broker_balance now (Some bb) e = Done e'"
    and ex: "exact_sync now bb e"
  shows "\<exists>l'. db e' = Some l' \<and> of_account e' = of_account e \<and> wf_ledger l' \<and>
           sum_list (map b_cash (account_rows e' l')) = ab_cash bb \<and>
           sum_list (map b_power (account_rows e' l')) = ab_power bb \<and>
           fsum (map b_cash (account_rows e' l')) = ab_cash bb \<and>
           fsum (map b_power (account_rows e' l')) = ab_power bb"
proof -
  have "\<exists>l'. db e' = Some l' \<and> of_account e' = of_account e \<and> wf_ledger l' \<and>
           sum_list (map b_cash (account_rows e' l')) = ab_cash bb \<and>
           sum_list (map b_power (account_rows e' l')) = ab_power bb"
  proof (cases "filter (of_account e) (balance_tbl l) = []")
    case True
    with ok db have b: "bootstrap_balance now bb e l = Done e'"
      by (simp add: sync_broker_balance_def select_records_def)
    then obtain l0 where l0: "db e' = Some l0"
      by (auto simp: bootstrap_balance_def reload_balance_def Let_def
          split: option.splits if_splits sum.splits)
    have rows: "account_rows e l = []" using True by (simp add: account_rows_def select_records_def)
    have "exact_sub (ab_cash bb) (ab_cash local) \<and> exact_sub (ab_power bb) (ab_power local)"
      if "pf_account_balance e = Some local" for local
      using exact_syncD(3) [OF ex db ok l0 rows that] .
    from bootstrap_balance_step [OF wf True b this] show ?thesis
      by (auto simp: account_rows_def select_records_def)
  next
    case False
    with ok db have u: "update_default bb e l (filter (of_account e) (balance_tbl l)) = Done e'"
      by (simp add: sync_broker_balance_def select_records_def)
    then obtain l0 where l0: "db e' = Some l0"
      by (auto simp: update_default_def reload_balance_def split: list.splits sum.splits)
    have rows: "account_rows e l \<noteq> []" using False by (simp add: account_rows_def select_records_def)
    from exact_syncD(4) [OF ex db ok l0 rows]
    have exd: "exact_delta ab_cash b_cash bb (filter (of_account e) (balance_tbl l))"
      "exact_delta ab_power b_power bb (filter (of_account e) (balance_tbl l))"
      by (simp_all add: account_rows_def select_records_def)
    from update_default_step [OF _ refl u exd] wf obtain l' where
      "db e' = Some l'" "of_account e' = of_account e"
      "map shape (balance_tbl l') = map shape (balance_tbl l)"
      "sum_list (map b_cash (filter (of_account e) (balance_tbl l'))) = ab_cash bb"
      "sum_list (map b_power (filter (of_account e) (balance_tbl l'))) = ab_power bb"
      by (auto simp: wf_ledger_def)
    then show ?thesis using wf wf_ledger_cong [of l' l]
      by (auto simp: account_rows_def select_records_def)
  qed
  then obtain l' where l': "db e' = Some l'" "of_account e' = of_account e" "wf_ledger l'"
    "sum_list (map b_cash (account_rows e' l')) = ab_cash bb"
    "sum_list (map b_power (account_rows e' l')) = ab_power bb"
    by blast
  from exact_syncD(1,2) [OF ex db ok l'(1)] l'(4,5)
  have "fsum (map b_cash (account_rows e' l')) = ab_cash bb"
    "fsum (map b_power (account_rows e' l')) = ab_power bb"
    by (simp_all add: exact_column_def)
  with l' show ?thesis by blast
qed

lemma balance_seq_conservation:
  assumes "wf_ledger l" "db e = Some l" "snaps \<noteq> []" "sync_balance_seq e snaps = Done e'"
    and "exact_syncs e snaps"
  shows "\<exists>l'. db e' = Some l' \<and> wf_ledger l' \<and>
           fsum (map b_cash (group_rows e' l')) = ab_cash (snd (last snaps)) \<and>
           fsum (map b_power (group_rows e' l')) = ab_power (snd (last snaps)) \<and>
           sum_list (map b_cash (group_rows e' l')) = ab_cash (snd (last snaps)) \<and>
           sum_list (map b_power (group_rows e' l')) = ab_power (snd (last snaps))"
  using assms
proof (induction snaps arbitrary: e l)
  case Nil
  then show ?case by simp
next
  case (Cons snap rest)
  obtain now bb where snap: "snap = (now, bb)" by (cases snap)
  from Cons.prems(4) snap obtain e1 where
    e1: "sync_broker_balance now (Some bb) e = Done e1" and run: "sync_balance_seq e1 rest = Done e'"
    by (auto split: outcome.splits)
  from Cons.prems(5) snap e1 have ex: "exact_sync now bb e" and exr: "exact_syncs e1 rest"
    by simp_all
  from sync_broker_balance_step [OF Cons.prems(1,2) e1 ex] obtain l1 where
    l1: "db e1 = Some l1" "wf_ledger l1"
      "sum_list (map b_cash (account_rows e1 l1)) = ab_cash bb"
      "sum_list (map b_power (account_rows e1 l1)) = ab_power bb"
      "fsum (map b_cash (account_rows e1 l1)) = ab_cash bb"
      "fsum (map b_power (account_rows e1 l1)) = ab_power bb"
    by blast
  show ?case
  proof (cases "rest = []")
    case True
    with run have "e' = e1" by simp
    with l1 True snap show ?thesis by (simp add: group_rows_eq)
  next
    case False
    from Cons.IH [OF l1(2) l1(1) False run exr] False show ?thesis by simp
  qed
qed

lemma id_unique:
  assumes "distinct (map b_id rows)" "d \<in> set rows" "r \<in> set rows" "b_id r = b_id d"
  shows "r = d"
  using assms by (meson distinct_map inj_onD)

lemma bootstrap_balance_reload:
  fixes l :: ledger
  defines "B \<equiv> (if balance_tbl l = [] then 1 else Max (set (map b_broker_account_id (balance_tbl l))) + 1)"
    and "S \<equiv> (if balance_tbl l = [] then 1 else Max (set (map b_strategy_account_id (balance_tbl l))) + 1)"
  assumes ok: "bootstrap_balance now bb e l = Done e'" and local: "pf_account_balance e = Some local"
  shows "reload_balance e
           (insert_balance (strategy_row e now B (S + 1) (ab_cash local) (ab_power local))
              (insert_balance (default_row e now B S (fl_sub (ab_cash bb) (ab_cash local))
                 (fl_sub (ab_power bb) (ab_power local))) l)) = Done e'"
  using ok local
  by (auto simp: bootstrap_balance_def Let_def B_def S_def split: if_splits)

lemma bootstrap_balance_rows:
  assumes df: "filter (of_account e) (balance_tbl l) = []"
    and local: "pf_account_balance e = Some local"
    and ok: "bootstrap_balance now bb e l = Done e'"
  shows "\<exists>l' d s. db e' = Some l' \<and> account_rows e' l' = [d, s] \<and>
           b_strategy_account d = ''default'' \<and>
           b_cash d = fl_sub (ab_cash bb) (ab_cash local) \<and>
           b_power d = fl_sub (ab_power bb) (ab_power local) \<and>
           b_strategy_account s = strategy_account e \<and>
           b_cash s = ab_cash local \<and> b_power s = ab_power local"
proof -
  define B where "B = (if balance_tbl l = [] then 1 else Max (set (map b_broker_account_id (balance_tbl l))) + 1)"
  define S where "S = (if balance_tbl l = [] then 1 else Max (set (map b_strategy_account_id (balance_tbl l))) + 1)"
  define d0 where "d0 = default_row e now B S (fl_sub (ab_cash bb) (ab_cash local))
    (fl_sub (ab_power bb) (ab_power local))"
  define s0 where "s0 = strategy_row e now B (S + 1) (ab_cash local) (ab_power local)"
  define l' where "l' = insert_balance s0 (insert_balance d0 l)"
  define d where "d = d0\<lparr>b_id := next_id (map b_id (balance_tbl l))\<rparr>"
  define s where "s = s0\<lparr>b_id := next_id (map b_id (balance_tbl l @ [d]))\<rparr>"
  have re: "reload_balance e l' = Done e'"
    unfolding l'_def d0_def s0_def B_def S_def by (rule bootstrap_balance_reload [OF ok local])
  have T': "balance_tbl l' = balance_tbl l @ [d, s]"
    by (simp add: l'_def insert_balance_def d_def s_def)
  have acc: "of_account e d" "of_account e s"
    by (simp_all add: d_def s_def d0_def s0_def default_row_def strategy_row_def of_account_def)
  have "filter (of_account e) (balance_tbl l') = [d, s]"
    unfolding T' using df acc by simp
  then have rows: "account_rows e' l' = [d, s]"
    using reload_balance_Done(2) [OF re] by (simp add: account_rows_def select_records_def)
  have vals: "b_strategy_account d = ''default''" "b_cash d = fl_sub (ab_cash bb) (ab_cash local)"
    "b_power d = fl_sub (ab_power bb) (ab_power local)" "b_strategy_account s = strategy_account e"
    "b_cash s = ab_cash local" "b_power s = ab_power local"
    by (simp_all add: d_def s_def d0_def s0_def default_row_def strategy_row_def)
  from reload_balance_Done(1) [OF re] rows vals show ?thesis by blast
qed

lemma update_default_rows:
  assumes dist: "distinct (map b_id (balance_tbl l))"
    and df: "df = filter (of_account e) (balance_tbl l)"
    and ok: "update_default bb e l df = Done e'"
  shows "\<exists>l' dflt ds. db e' = Some l' \<and>
           filter (\<lambda>r. b_strategy_account r = ''default'') df = dflt # ds \<and>
           balance_tbl l' = map (\<lambda>r. if b_id r = b_id dflt
               then r\<lparr>b_cash :=
                        (if fl_sub (ab_cash bb) (fsum (map b_cash df)) = 0 then b_cash dflt
                         else fl_add (b_cash dflt) (fl_sub (ab_cash bb) (fsum (map b_cash df)))),
                      b_power :=
                        (if fl_sub (ab_power bb) (fsum (map b_power df)) = 0 then b_power dflt
                         else fl_add (b_power dflt) (fl_sub (ab_power bb) (fsum (map b_power df))))\<rparr>
               else r) (balance_tbl l)"
proof -
  from ok obtain dflt ds where ds: "filter (\<lambda>r. b_strategy_account r = ''default'') df = dflt # ds"
    by (auto simp: update_default_def split: list.splits)
  then have "dflt \<in> set df"
    by (metis filter_is_subset list.set_intros(1) subsetD)
  then have din: "dflt \<in> set (balance_tbl l)" by (simp add: df)
  have uniq: "\<And>r. r \<in> set (balance_tbl l) \<Longrightarrow> b_id r = b_id dflt \<Longrightarrow> r = dflt"
    using id_unique [OF dist din] by blast
  from ok ds obtain l1 l2 where
    l1: "sync_field ab_cash b_cash (\<lambda>v r. r\<lparr>b_cash := v\<rparr>) bb df dflt l = Inr l1" and
    l2: "sync_field ab_power b_power (\<lambda>v r. r\<lparr>b_power := v\<rparr>) bb df dflt l1 = Inr l2" and
    re: "reload_balance e l2 = Done e'"
    by (auto simp: update_default_def split: sum.splits)
  define vc where "vc = (if fl_sub (ab_cash bb) (fsum (map b_cash df)) = 0 then b_cash dflt
                         else fl_add (b_cash dflt) (fl_sub (ab_cash bb) (fsum (map b_cash df))))"
  define vp where "vp = (if fl_sub (ab_power bb) (fsum (map b_power df)) = 0 then b_power dflt
                         else fl_add (b_power dflt) (fl_sub (ab_power bb) (fsum (map b_power df))))"
  have c0: "r\<lparr>b_cash := b_cash dflt\<rparr> = r" if "r \<in> set (balance_tbl l)" "b_id r = b_id dflt" for r
    using uniq [OF that] by simp
  have t1: "balance_tbl l1 =
      map (\<lambda>r. if b_id r = b_id dflt then r\<lparr>b_cash := vc\<rparr> else r) (balance_tbl l)"
    using sync_field_tbl [OF l1] c0 unfolding vc_def by (auto intro!: map_idI [symmetric])
  have t2: "balance_tbl l2 =
      map (\<lambda>r. if b_id r = b_id dflt then r\<lparr>b_power := vp\<rparr> else r) (balance_tbl l1)"
  proof -
    have "b_power r = b_power dflt" if "r \<in> set (balance_tbl l1)" "b_id r = b_id dflt" for r
      using that uniq unfolding t1 by (auto split: if_splits) blast+
    then have "r\<lparr>b_power := b_power dflt\<rparr> = r" if "r \<in> set (balance_tbl l1)" "b_id r = b_id dflt" for r
      using that by (metis balance_row.surjective balance_row.update_convs(12))
    then show ?thesis
      using sync_field_tbl [OF l2] unfolding vp_def by (auto intro!: map_idI [symmetric])
  qed
  have "balance_tbl l2 = map (\<lambda>r. if b_id r = b_id dflt
               then r\<lparr>b_cash := vc, b_power := vp\<rparr>
               else r) (balance_tbl l)"
    unfolding t2 t1 by simp
  then show ?thesis using reload_balance_Done(1) [OF re] ds unfolding vc_def vp_def by simp
qed

lemmas balance_eval =
  sync_broker_balance_def select_records_def empty_ledger_def bootstrap_balance_def
  update_default_def sync_field_def update_balance_def
  insert_balance_def default_row_def strategy_row_def reload_balance_def get_db_balance_def
  next_id_simps of_account_def of_strategy_def engine0_def balance_of_def snaps0_def Let_def
  float_eval

lemma not_raised_Done: "\<not> raised out \<Longrightarrow> out = Done (state_of out)"
  by (cases out) simp_all

lemma engine1_eq: "engine1 = engine0\<lparr>db := Some ledger1\<rparr>"
  by (simp add: engine1_def ledger1_def default1_def strategy1_def balance_eval)

lemmas position_eval =
  sync_broker_position_def select_records_def bootstrap_position_def replace_default_positions_def
  insert_remainders_def insert_position_def delete_position_def position_row_of_def
  row_position_data_def convert_direction_db2qt_def strptime_def get_db_position_def pd_key_def
  of_account_def of_strategy_def next_id_simps Let_def float_eval

lemmas scenario1 = engine1_eq engine0_def ledger1_def default1_def strategy1_def

lemma engine2_eq:
  "engine2 = engine1\<lparr>db := Some (ledger1\<lparr>position_tbl :=
       [\<lparr>p_id = 1, p_balance_id = 1, p_security_code = ''HK.00700'', p_security_name = ''TENCENT'',
         p_direction = ''LONG'', p_holding_price = 10, p_quantity = 100, p_update_time = 0\<rparr>],
       writes := 3\<rparr>)\<rparr>"
  by (simp add: engine2_def scenario1 position_eval pos_a_def)

lemma of_account_shape:
  "of_account e = (\<lambda>s. snd (snd s) = (broker_name e, broker_environment e, broker_account e)) \<circ> shape"
  by (auto simp: fun_eq_iff of_account_key shape_def)

lemma filter_account_shape:
  assumes "map shape T' = map shape T"
  shows "map shape (filter (of_account e) T') = map shape (filter (of_account e) T)"
proof -
  let ?Q = "\<lambda>s. snd (snd s) = (broker_name e, broker_environment e, broker_account e)"
  have "map shape (filter (?Q \<circ> shape) T') = filter ?Q (map shape T')" by (simp add: filter_map)
  also have "\<dots> = filter ?Q (map shape T)" using assms by simp
  also have "\<dots> = map shape (filter (?Q \<circ> shape) T)" by (simp add: filter_map)
  finally show ?thesis by (simp only: of_account_shape)
qed

lemma update_default_shape:
  assumes ok: "update_default bb e l df = Done e'"
  shows "\<exists>l'. db e' = Some l' \<and> of_account e' = of_account e \<and>
           map shape (balance_tbl l') = map shape (balance_tbl l)"
proof -
  from ok obtain dflt ds where ds: "filter (\<lambda>r. b_strategy_account r = ''default'') df = dflt # ds"
    by (auto simp: update_default_def split: list.splits)
  from ok ds obtain l1 l2 where
    l1: "sync_field ab_cash b_cash (\<lambda>v r. r\<lparr>b_cash := v\<rparr>) bb df dflt l = Inr l1" and
    l2: "sync_field ab_power b_power (\<lambda>v r. r\<lparr>b_power := v\<rparr>) bb df dflt l1 = Inr l2" and
    re: "reload_balance e l2 = Done e'"
    by (auto simp: update_default_def split: sum.splits)
  have sh1: "map shape (balance_tbl l1) = map shape (balance_tbl l)"
    by (rule sync_field_keeps [OF l1]) (simp add: shape_def account_key_def)
  have sh2: "map shape (balance_tbl l2) = map shape (balance_tbl l1)"
    by (rule sync_field_keeps [OF l2]) (simp add: shape_def account_key_def)
  show ?thesis
    using reload_balance_Done [OF re] sh1 sh2 by simp
qed

lemma sync_broker_balance_rows_nonempty:
  assumes db: "db e = Some l"
    and ok: "sync_broker_balance now (Some bb) e = Done e'"
  shows "\<exists>l'. db e' = Some l' \<and> account_rows e' l' \<noteq> []"
proof (cases "filter (of_account e) (balance_tbl l) = []")
  case True
  with ok db have b: "bootstrap_balance now bb e l = Done e'"
    by (simp add: sync_broker_balance_def select_records_def)
  then obtain local where "pf_account_balance e = Some local"
    by (auto simp: bootstrap_balance_def Let_def split: option.splits)
  from bootstrap_balance_rows [OF True this b] show ?thesis by auto
next
  case False
  with ok db have u: "update_default bb e l (filter (of_account e) (balance_tbl l)) = Done e'"
    by (simp add: sync_broker_balance_def select_records_def)
  from update_default_shape [OF u] obtain l' where
    l': "db e' = Some l'" "of_account e' = of_account e"
    "map shape (balance_tbl l') = map shape (balance_tbl l)"
    by blast
  from filter_account_shape [OF l'(3), of e] False
  have "filter (of_account e) (balance_tbl l') \<noteq> []" by (metis map_is_Nil_conv)
  with l' show ?thesis by (simp add: account_rows_def select_records_def)
qed

lemma update_default_unchanged:
  assumes "fsum (map b_cash df) = ab_cash bb" and "fsum (map b_power df) = ab_power bb"
    and "db e = Some l"
  shows "db (state_of (update_default bb e l df)) = Some l"
  using assms
  by (auto simp: update_default_def sync_field_def reload_balance_def Let_def
      split: list.splits sum.splits if_splits)

subsection \<open>Facts about the position sync\<close>







lemma foldl_insert_position:
  "\<exists>rows. position_tbl (foldl (\<lambda>l' pd. insert_position (position_row_of bid pd) l') l pds) =
            position_tbl l @ rows \<and>
          balance_tbl (foldl (\<lambda>l' pd. insert_position (position_row_of bid pd) l') l pds) =
            balance_tbl l \<and>
          list_all2 (row_for bid) rows pds"
proof (induction pds arbitrary: l)
  case Nil
  then show ?case by simp
next
  case (Cons pd pds)
  let ?l1 = "insert_position (position_row_of bid pd) l"
  from Cons [of ?l1] obtain rows where
    rows: "position_tbl (foldl (\<lambda>l' pd. insert_position (position_row_of bid pd) l') ?l1 pds) =
            position_tbl ?l1 @ rows"
      "balance_tbl (foldl (\<lambda>l' pd. insert_position (position_row_of bid pd) l') ?l1 pds) =
            balance_tbl ?l1"
      "list_all2 (row_for bid) rows pds"
    by blast
  have l1: "position_tbl ?l1 = position_tbl l @ [(position_row_of bid pd)\<lparr>p_id := next_id (map p_id (position_tbl l))\<rparr>]"
    "balance_tbl ?l1 = balance_tbl l"
    by (simp_all add: insert_position_def)
  have r0: "row_for bid ((position_row_of bid pd)\<lparr>p_id := next_id (map p_id (position_tbl l))\<rparr>) pd"
    by (simp add: row_for_def position_row_of_def)
  show ?case
    apply (rule exI [of _ "(position_row_of bid pd)\<lparr>p_id := next_id (map p_id (position_tbl l))\<rparr> # rows"])
    using rows l1 r0 by simp
qed

lemma foldl_filter:
  "foldl (\<lambda>a x. if P x then f a x else a) a xs = foldl f a (filter P xs)"
  by (induction xs arbitrary: a) auto

lemma insert_remainders_tbl:
  "\<exists>rows. position_tbl (insert_remainders did rem l) = position_tbl l @ rows \<and>
          balance_tbl (insert_remainders did rem l) = balance_tbl l \<and>
          list_all2 (row_for did) rows (filter (\<lambda>bp. pd_quantity bp > 0) rem)"
  unfolding insert_remainders_def foldl_filter by (rule foldl_insert_position)

lemma row_for_quantity: "list_all2 (row_for bid) rows pds \<Longrightarrow> map p_quantity rows = map pd_quantity pds"
proof (induction rule: list_all2_induct)
  case Nil
  then show ?case by simp
next
  case (Cons r rows pd pds)
  from Cons(1) have "p_quantity (r\<lparr>p_id := 0\<rparr>) = pd_quantity pd"
    by (simp only: row_for_def position_row_of_def) simp
  with Cons show ?case by simp
qed

lemma row_for_balance_id: "list_all2 (row_for bid) rows pds \<Longrightarrow> \<forall>r \<in> set rows. p_balance_id r = bid"
proof (induction rule: list_all2_induct)
  case Nil
  then show ?case by simp
next
  case (Cons r rows pd pds)
  from Cons(1) have "p_balance_id (r\<lparr>p_id := 0\<rparr>) = bid"
    by (simp only: row_for_def position_row_of_def) simp
  with Cons show ?case by simp
qed

lemma replace_default_positions_db:
  assumes "db e = Some l"
  shows "db (state_of (replace_default_positions mrg did sid pdf bps e l)) = Some l \<or>
         (\<exists>rem. db (state_of (replace_default_positions mrg did sid pdf bps e l)) =
            Some (insert_remainders did rem (delete_position (\<lambda>r. p_balance_id r = did) l)))"
  using assms
  by (auto simp: replace_default_positions_def Let_def split: sum.splits prod.splits)

lemma replace_no_zero:
  assumes db: "db e = Some l" and nz: "no_zero_quantity l"
  shows "\<exists>l'. db (state_of (replace_default_positions mrg did sid pdf bps e l)) = Some l' \<and>
              no_zero_quantity l'"
proof -
  from replace_default_positions_db [OF db, of mrg did sid pdf bps] show ?thesis
  proof
    assume "db (state_of (replace_default_positions mrg did sid pdf bps e l)) = Some l"
    with nz show ?thesis by simp
  next
    assume "\<exists>rem. db (state_of (replace_default_positions mrg did sid pdf bps e l)) =
            Some (insert_remainders did rem (delete_position (\<lambda>r. p_balance_id r = did) l))"
    then obtain rem where rem: "db (state_of (replace_default_positions mrg did sid pdf bps e l)) =
            Some (insert_remainders did rem (delete_position (\<lambda>r. p_balance_id r = did) l))"
      by blast
    let ?l1 = "delete_position (\<lambda>r. p_balance_id r = did) l"
    from insert_remainders_tbl [of did rem ?l1] obtain rows where
      rows: "position_tbl (insert_remainders did rem ?l1) = position_tbl ?l1 @ rows"
        "list_all2 (row_for did) rows (filter (\<lambda>bp. pd_quantity bp > 0) rem)"
      by blast
    from row_for_quantity [OF rows(2)]
    have "set (map p_quantity rows) = set (map pd_quantity (filter (\<lambda>bp. pd_quantity bp > 0) rem))"
      by simp
    then have "\<forall>r \<in> set rows. p_quantity r > 0" by (auto simp: image_iff) force
    moreover have "position_tbl (insert_remainders did rem ?l1) =
        filter (\<lambda>r. p_balance_id r \<noteq> did) (position_tbl l) @ rows"
      unfolding rows(1) by (simp add: delete_position_def)
    ultimately have "no_zero_quantity (insert_remainders did rem ?l1)"
      using nz unfolding no_zero_quantity_def by auto
    with rem show ?thesis by simp
  qed
qed

lemma insert_all_no_zero:
  assumes nz: "no_zero_quantity l" and pds: "\<forall>pd \<in> set pds. pd_quantity pd \<noteq> 0"
  shows "no_zero_quantity (foldl (\<lambda>l' pd. insert_position (position_row_of bid pd) l') l pds)"
proof -
  from foldl_insert_position [of bid l pds] obtain rows where
    rows: "position_tbl (foldl (\<lambda>l' pd. insert_position (position_row_of bid pd) l') l pds) =
            position_tbl l @ rows" "list_all2 (row_for bid) rows pds"
    by blast
  from row_for_quantity [OF rows(2)] have "set (map p_quantity rows) = set (map pd_quantity pds)"
    by simp
  with pds have "\<forall>r \<in> set rows. p_quantity r \<noteq> 0" by (auto simp: image_iff) force
  with nz show ?thesis by (auto simp: no_zero_quantity_def rows(1))
qed

lemmas scenario3 = engine3_def row40_def pos40_def pos_a_def pos_b_def scenario1

lemma sync_broker_position_cases:
  assumes "db e = Some l"
  shows "state_of (sync_broker_position mrg (Some bps) e) = e \<or>
         (\<exists>did. sync_broker_position mrg (Some bps) e = bootstrap_position did bps e l) \<or>
         (\<exists>did sid pdf. sync_broker_position mrg (Some bps) e =
            replace_default_positions mrg did sid pdf bps e l)"
  using assms
  by (auto simp: sync_broker_position_def Let_def split: list.splits)

lemma convert_direction_name: "convert_direction_db2qt (direction_name d) = Inr d"
  by (cases d) (simp_all add: convert_direction_db2qt_def)

lemma row_for_data:
  assumes "row_for bid r pd"
  shows "row_position_data r = (if whole_second pd then Inr pd else Inl ValueError)"
proof -
  let ?r0 = "r\<lparr>p_id := 0\<rparr>"
  have eq: "?r0 = position_row_of bid pd" using assms by (simp only: row_for_def)
  have "p_direction ?r0 = direction_name (pd_direction pd)"
    "p_security_code ?r0 = code (pd_security pd)" "p_security_name ?r0 = stock_name (pd_security pd)"
    "p_holding_price ?r0 = pd_holding_price pd" "p_quantity ?r0 = pd_quantity pd"
    "p_update_time ?r0 = pd_update_time pd"
    unfolding eq by (simp_all add: position_row_of_def)
  then show ?thesis
    by (simp add: row_position_data_def convert_direction_name strptime_def whole_second_def)
qed

lemma row_for_data_map:
  "list_all2 (row_for bid) rows pds \<Longrightarrow> list_all whole_second pds \<Longrightarrow>
   map row_position_data rows = map Inr pds"
  by (induction rule: list_all2_induct) (simp_all add: row_for_data)

lemma load_rows_fold:
  "map row_position_data rows = map Inr pds \<Longrightarrow>
   load_rows mrg pos rows = Inr (foldl (position_update mrg) pos pds)"
proof (induction rows arbitrary: pos pds)
  case Nil
  then show ?case by simp
next
  case (Cons row rows)
  then obtain pd pds' where "pds = pd # pds'" by (cases pds) auto
  with Cons show ?case by auto
qed

lemma load_rows_valid:
  assumes "list_all readable_row rows"
  shows "\<exists>pos'. load_rows mrg pos rows = Inr pos'"
  using assms
proof (induction rows arbitrary: pos)
  case Nil
  then show ?case by simp
next
  case (Cons row rows)
  then have "\<exists>pd. row_position_data row = Inr pd"
    by (auto simp: row_position_data_def convert_direction_db2qt_def strptime_def readable_row_def)
  with Cons show ?case by auto
qed

subsection \<open>Facts about the persistence step\<close>

lemma position_update_fresh:
  "pd_key pd \<notin> fst ` set pos \<Longrightarrow> position_update mrg pos pd = pos @ [(pd_key pd, pd)]"
  by (induction pos) auto

lemma fold_position_update_fresh:
  assumes "distinct (map pd_key pds)" and "set (map pd_key pds) \<inter> fst ` set pos = {}"
  shows "foldl (position_update mrg) pos pds = pos @ map (\<lambda>pd. (pd_key pd, pd)) pds"
  using assms
proof (induction pds arbitrary: pos)
  case Nil
  then show ?case by simp
next
  case (Cons pd pds)
  from Cons.prems have fresh: "pd_key pd \<notin> fst ` set pos" by auto
  have "distinct (map pd_key pds)" using Cons.prems by simp
  moreover have "set (map pd_key pds) \<inter> fst ` set (pos @ [(pd_key pd, pd)]) = {}"
    using Cons.prems by auto
  ultimately have "foldl (position_update mrg) (pos @ [(pd_key pd, pd)]) pds =
      (pos @ [(pd_key pd, pd)]) @ map (\<lambda>pd. (pd_key pd, pd)) pds"
    by (rule Cons.IH)
  then show ?case by (simp add: position_update_fresh [OF fresh])
qed

lemma position_inv_entries:
  assumes "position_inv pos"
  shows "map (\<lambda>pd. (pd_key pd, pd)) (get_all_positions pos) = pos"
    and "distinct (map pd_key (get_all_positions pos))"
proof -
  from assms have k: "\<forall>kv \<in> set pos. fst kv = pd_key (snd kv)" and d: "distinct (map fst pos)"
    by (simp_all add: position_inv_def)
  from k show "map (\<lambda>pd. (pd_key pd, pd)) (get_all_positions pos) = pos"
    by (induction pos) (auto simp: get_all_positions_def)
  from k have "map pd_key (get_all_positions pos) = map fst pos"
    by (induction pos) (auto simp: get_all_positions_def)
  with d show "distinct (map pd_key (get_all_positions pos))" by simp
qed

lemma apply_updates:
  assumes "ab_cash dbb = b_cash r" "ab_power dbb = b_power r"
    "ab_max_power_short dbb = b_max_power_short r" "ab_net_cash_power dbb = b_net_cash_power r"
  shows "b_cash (fold set_column (balance_updates ab dbb) r) = ab_cash ab"
    and "b_power (fold set_column (balance_updates ab dbb) r) = ab_power ab"
    and "b_max_power_short (fold set_column (balance_updates ab dbb) r) = ab_max_power_short ab"
    and "b_net_cash_power (fold set_column (balance_updates ab dbb) r) = ab_net_cash_power ab"
  using assms by (simp_all add: balance_updates_def set_column_def)

lemma fold_set_column_keeps:
  "b_id (fold set_column us r) = b_id r"
  "of_account e (fold set_column us r) = of_account e r"
  "of_strategy sa sv (fold set_column us r) = of_strategy sa sv r"
  by (induction us arbitrary: r) (simp_all add: set_column_def of_account_def of_strategy_def)

lemma persist_account_balance_ok:
  assumes db: "db e = Some l"
    and row: "filter (\<lambda>r. of_account e r \<and> of_strategy (strategy_account e) (strategy_version e) r)
                (balance_tbl l) = [r]"
    and ab: "pf_account_balance e = Some ab"
  shows "\<exists>l1 r1. persist_account_balance e = Done (e\<lparr>db := Some l1\<rparr>) \<and>
           position_tbl l1 = position_tbl l \<and>
           filter (\<lambda>r. of_account e r \<and> of_strategy (strategy_account e) (strategy_version e) r)
             (balance_tbl l1) = [r1] \<and>
           b_id r1 = b_id r \<and> b_cash r1 = ab_cash ab \<and> b_power r1 = ab_power ab \<and>
           b_max_power_short r1 = ab_max_power_short ab \<and>
           b_net_cash_power r1 = ab_net_cash_power ab"
proof -
  let ?P = "\<lambda>r. of_account e r \<and> of_strategy (strategy_account e) (strategy_version e) r"
  define dbb where "dbb = \<lparr>ab_cash = b_cash r, ab_power = b_power r,
    ab_max_power_short = b_max_power_short r, ab_net_cash_power = b_net_cash_power r\<rparr>"
  have g: "get_db_balance e l (strategy_account e) (strategy_version e) = Inr (Some dbb)"
    by (simp add: get_db_balance_def select_records_def row dbb_def)
  have dbb: "ab_cash dbb = b_cash r" "ab_power dbb = b_power r"
    "ab_max_power_short dbb = b_max_power_short r" "ab_net_cash_power dbb = b_net_cash_power r"
    by (simp_all add: dbb_def)
  have Pr: "?P r" using row by (metis (mono_tags, lifting) filter_eq_ConsD)
  show ?thesis
  proof (cases "balance_updates ab dbb = []")
    case True
    then have same: "b_cash r = ab_cash ab" "b_power r = ab_power ab"
      "b_max_power_short r = ab_max_power_short ab" "b_net_cash_power r = ab_net_cash_power ab"
      using dbb by (auto simp: balance_updates_def split: if_splits)
    have "persist_account_balance e = Done e"
      using db g ab True by (simp add: persist_account_balance_def)
    moreover have "e = e\<lparr>db := Some l\<rparr>" using db by simp
    ultimately have "persist_account_balance e = Done (e\<lparr>db := Some l\<rparr>)" by simp
    with row same show ?thesis by blast
  next
    case False
    let ?F = "fold set_column (balance_updates ab dbb)"
    let ?l1 = "update_balance (of_strategy (strategy_account e) (strategy_version e)) ?F l"
    have p: "persist_account_balance e = Done (e\<lparr>db := Some ?l1\<rparr>)"
      using db g ab False by (simp add: persist_account_balance_def)
    have "filter ?P (balance_tbl ?l1) =
        map (\<lambda>r. if of_strategy (strategy_account e) (strategy_version e) r then ?F r else r)
          (filter ?P (balance_tbl l))"
      unfolding update_balance_def by (simp add: filter_upd fold_set_column_keeps)
    then have f: "filter ?P (balance_tbl ?l1) = [?F r]" using Pr by (simp add: row)
    have pt: "position_tbl ?l1 = position_tbl l" by (simp add: update_balance_def)
    from p pt f fold_set_column_keeps(1) [of "balance_updates ab dbb" r] apply_updates [OF dbb, of ab]
    show ?thesis by blast
  qed
qed

lemma get_db_position_valid:
  assumes "valid_position_rows l bid"
  shows "\<exists>dbp. get_db_position mrg l bid = Inr dbp \<and>
           (dbp = None) = (filter (\<lambda>r. p_balance_id r = bid) (position_tbl l) = [])"
proof -
  let ?df = "filter (\<lambda>r. p_balance_id r = bid) (position_tbl l)"
  from assms have "list_all readable_row ?df"
    by (simp add: valid_position_rows_def)
  from load_rows_valid [OF this, of mrg "[]"] obtain pos' where "load_rows mrg [] ?df = Inr pos'"
    by blast
  then show ?thesis by (simp add: get_db_position_def select_records_def Let_def)
qed

lemma persist_position_ok:
  assumes db: "db e = Some l"
    and row: "filter (\<lambda>r. of_account e r \<and> of_strategy (strategy_account e) (strategy_version e) r)
                (balance_tbl l) = [r]"
    and inv: "position_inv (pf_position e)"
    and ws: "whole_seconds (pf_position e)"
    and valid: "valid_position_rows l (b_id r)"
  shows "\<exists>l2. persist_position mrg e = Done (e\<lparr>db := Some l2\<rparr>) \<and>
           balance_tbl l2 = balance_tbl l \<and>
           get_db_position mrg l2 (b_id r) =
             Inr (if pf_position e = [] then None else Some (pf_position e))"
proof -
  let ?bid = "b_id r"
  let ?pds = "get_all_positions (pf_position e)"
  let ?ins = "\<lambda>l' pd. insert_position (position_row_of ?bid pd) l'"
  from get_db_position_valid [OF valid, of mrg] obtain dbp where
    g: "get_db_position mrg l ?bid = Inr dbp" and
    none: "(dbp = None) = (filter (\<lambda>r. p_balance_id r = ?bid) (position_tbl l) = [])"
    by blast
  define base where "base = (if dbp \<noteq> None then delete_position (\<lambda>r. p_balance_id r = ?bid) l else l)"
  have base: "filter (\<lambda>r. p_balance_id r = ?bid) (position_tbl base) = []"
    "balance_tbl base = balance_tbl l"
    using none by (auto simp: base_def delete_position_def)
  define l2 where "l2 = foldl ?ins base ?pds"
  have p: "persist_position mrg e = Done (e\<lparr>db := Some l2\<rparr>)"
    using db row g by (simp add: persist_position_def select_records_def l2_def base_def Let_def)
  from foldl_insert_position [of ?bid base ?pds] obtain rows where
    rows: "position_tbl l2 = position_tbl base @ rows" "balance_tbl l2 = balance_tbl base"
      "list_all2 (row_for ?bid) rows ?pds"
    unfolding l2_def by blast
  from row_for_balance_id [OF rows(3)] have "filter (\<lambda>r. p_balance_id r = ?bid) rows = rows"
    by simp
  then have df: "filter (\<lambda>r. p_balance_id r = ?bid) (position_tbl l2) = rows"
    by (simp add: rows(1) base(1))
  have len: "length rows = length (pf_position e)"
    using list_all2_lengthD [OF rows(3)] by (simp add: get_all_positions_def)
  have "get_db_position mrg l2 ?bid = Inr (if pf_position e = [] then None else Some (pf_position e))"
  proof (cases "pf_position e = []")
    case True
    with len have "rows = []" by simp
    with True show ?thesis by (simp add: get_db_position_def select_records_def df Let_def)
  next
    case False
    with len have ne: "rows \<noteq> []" by auto
    have "load_rows mrg [] rows = Inr (foldl (position_update mrg) [] ?pds)"
      using ws by (intro load_rows_fold row_for_data_map [OF rows(3)]) (simp add: whole_seconds_def)
    also have "foldl (position_update mrg) [] ?pds = [] @ map (\<lambda>pd. (pd_key pd, pd)) ?pds"
      by (rule fold_position_update_fresh [OF position_inv_entries(2) [OF inv]]) simp
    also have "\<dots> = pf_position e" using position_inv_entries(1) [OF inv] by simp
    finally show ?thesis using ne False by (simp add: get_db_position_def select_records_def df Let_def)
  qed
  with p rows(2) base(2) show ?thesis by auto
qed

subsection \<open>Balance sync\<close>

text \<open>
  Claim C1, as stated, fails: the amounts are floats, and the subtraction that fills the
  default row rounds. A strategy with the local cash \<open>0.2\<close> syncs on an empty ledger with
  a broker that reports \<open>0.9\<close>. The call returns and leaves the default row with \<open>0.7\<close>
  and the strategy row with \<open>0.2\<close>; these add up to \<open>0.8999999999999999\<close> in float
  arithmetic, and their exact sum is not the broker's \<open>0.9\<close> either.
\<close>

theorem conservation_rounding_counterexample:
  "fl f09 = f09 \<and> fl f02 = f02 \<and>
   wf_ledger empty_ledger \<and> db engine_f = Some empty_ledger \<and>
   sync_broker_balance 0 (Some (balance_of f09 f09)) engine_f = Done engine_f1 \<and>
   map b_cash (group_rows engine_f1 (the (db engine_f1))) = [f07, f02] \<and>
   fsum (map b_cash (group_rows engine_f1 (the (db engine_f1)))) = f089 \<and>
   f089 \<noteq> ab_cash (balance_of f09 f09) \<and>
   sum_list (map b_cash (group_rows engine_f1 (the (db engine_f1)))) \<noteq> ab_cash (balance_of f09 f09)"
proof -
  have nr: "\<not> raised (sync_broker_balance 0 (Some (balance_of f09 f09)) engine_f)"
    by (simp add: engine_f_def balance_eval float_scenario float_scenario_order)
  then have run: "sync_broker_balance 0 (Some (balance_of f09 f09)) engine_f = Done engine_f1"
    unfolding engine_f1_def by (rule not_raised_Done)
  have rows: "map b_cash (group_rows engine_f1 (the (db engine_f1))) = [f07, f02]"
    by (simp add: engine_f1_def engine_f_def group_rows_def account_rows_def balance_eval
        float_scenario float_scenario_order)
  have "fsum [f07, f02] = f089" by (simp add: fsum_def fl_add_def float_scenario)
  moreover have "sum_list [f07, f02] \<noteq> f09" using float_scenario_order(4) by simp
  moreover have "wf_ledger empty_ledger" by (simp add: wf_ledger_def empty_ledger_def)
  moreover have "db engine_f = Some empty_ledger" by (simp add: engine_f_def engine0_def)
  ultimately show ?thesis
    using run float_scenario(1,2) float_scenario_order(3) unfolding rows
    by (simp add: balance_of_def)
qed

text \<open>
  Claim C1, amended (conservation when no operation rounds). From a well-formed ledger,
  after every call of a sequence of successful balance syncs in which no float operation
  rounds (\<open>exact_syncs\<close>), the cash and the power of the balance rows that share the
  broker account's \<^verbatim>\<open>broker_account_id\<close> add up, exactly and as Python's \<^verbatim>\<open>sum\<close>
  computes it, to the cash and the power of the latest broker snapshot, and the ledger is
  well-formed again. Whether or not an operation rounds, the first-time call creates a
  default row holding the float difference broker minus local and a strategy row holding
  the local balance; a later call computes, for cash and for power, the float
  \<open>delta = broker.value - sum(all rows' value)\<close> and, when it is not zero, writes the
  float sum of the first default row's value and \<open>delta\<close> to that row; it changes no
  other row.
\<close>

theorem sync_broker_balance_conservation:
  assumes wf: "wf_ledger l" and db: "db e = Some l"
  shows "(snaps \<noteq> [] \<longrightarrow> exact_syncs e snaps \<longrightarrow> sync_balance_seq e snaps = Done e' \<longrightarrow>
           (\<exists>l'. db e' = Some l' \<and> wf_ledger l' \<and>
              fsum (map b_cash (group_rows e' l')) = ab_cash (snd (last snaps)) \<and>
              fsum (map b_power (group_rows e' l')) = ab_power (snd (last snaps)) \<and>
              sum_list (map b_cash (group_rows e' l')) = ab_cash (snd (last snaps)) \<and>
              sum_list (map b_power (group_rows e' l')) = ab_power (snd (last snaps)))) \<and>
         (account_rows e l = [] \<longrightarrow> pf_account_balance e = Some local \<longrightarrow>
          sync_broker_balance now (Some bb) e = Done e1 \<longrightarrow>
           (\<exists>l1 d s. db e1 = Some l1 \<and> account_rows e1 l1 = [d, s] \<and>
              b_strategy_account d = ''default'' \<and>
              b_cash d = fl_sub (ab_cash bb) (ab_cash local) \<and>
              b_power d = fl_sub (ab_power bb) (ab_power local) \<and>
              b_strategy_account s = strategy_account e \<and>
              b_cash s = ab_cash local \<and> b_power s = ab_power local)) \<and>
         (account_rows e l \<noteq> [] \<longrightarrow> sync_broker_balance now (Some bb) e = Done e1 \<longrightarrow>
           (\<exists>l1 dflt ds. db e1 = Some l1 \<and>
              filter (\<lambda>r. b_strategy_account r = ''default'') (account_rows e l) = dflt # ds \<and>
              balance_tbl l1 = map (\<lambda>r. if b_id r = b_id dflt
                then r\<lparr>b_cash :=
                         (if fl_sub (ab_cash bb) (fsum (map b_cash (account_rows e l))) = 0
                          then b_cash dflt
                          else fl_add (b_cash dflt)
                                 (fl_sub (ab_cash bb) (fsum (map b_cash (account_rows e l))))),
                       b_power :=
                         (if fl_sub (ab_power bb) (fsum (map b_power (account_rows e l))) = 0
                          then b_power dflt
                          else fl_add (b_power dflt)
                                 (fl_sub (ab_power bb) (fsum (map b_power (account_rows e l)))))\<rparr>
                else r) (balance_tbl l)))"
proof (intro conjI impI)
  assume "snaps \<noteq> []" "exact_syncs e snaps" "sync_balance_seq e snaps = Done e'"
  then show "\<exists>l'. db e' = Some l' \<and> wf_ledger l' \<and>
      fsum (map b_cash (group_rows e' l')) = ab_cash (snd (last snaps)) \<and>
      fsum (map b_power (group_rows e' l')) = ab_power (snd (last snaps)) \<and>
      sum_list (map b_cash (group_rows e' l')) = ab_cash (snd (last snaps)) \<and>
      sum_list (map b_power (group_rows e' l')) = ab_power (snd (last snaps))"
    using balance_seq_conservation [OF wf db, of snaps e'] by blast
next
  assume a: "account_rows e l = []" "pf_account_balance e = Some local"
    "sync_broker_balance now (Some bb) e = Done e1"
  then have b: "bootstrap_balance now bb e l = Done e1"
    using db by (simp add: sync_broker_balance_def account_rows_def)
  have f: "filter (of_account e) (balance_tbl l) = []"
    using a(1) by (simp add: account_rows_def select_records_def)
  from bootstrap_balance_rows [of e l local now bb e1, OF f a(2) b]
  show "\<exists>l1 d s. db e1 = Some l1 \<and> account_rows e1 l1 = [d, s] \<and>
      b_strategy_account d = ''default'' \<and>
      b_cash d = fl_sub (ab_cash bb) (ab_cash local) \<and>
      b_power d = fl_sub (ab_power bb) (ab_power local) \<and>
      b_strategy_account s = strategy_account e \<and>
      b_cash s = ab_cash local \<and> b_power s = ab_power local" .
next
  assume a: "account_rows e l \<noteq> []" "sync_broker_balance now (Some bb) e = Done e1"
  then have "update_default bb e l (account_rows e l) = Done e1"
    using db by (simp add: sync_broker_balance_def account_rows_def)
  moreover have "distinct (map b_id (balance_tbl l))" using wf by (simp add: wf_ledger_def)
  ultimately show "\<exists>l1 dflt ds. db e1 = Some l1 \<and>
      filter (\<lambda>r. b_strategy_account r = ''default'') (account_rows e l) = dflt # ds \<and>
      balance_tbl l1 = map (\<lambda>r. if b_id r = b_id dflt
        then r\<lparr>b_cash :=
                 (if fl_sub (ab_cash bb) (fsum (map b_cash (account_rows e l))) = 0
                  then b_cash dflt
                  else fl_add (b_cash dflt)
                         (fl_sub (ab_cash bb) (fsum (map b_cash (account_rows e l))))),
               b_power :=
                 (if fl_sub (ab_power bb) (fsum (map b_power (account_rows e l))) = 0
                  then b_power dflt
                  else fl_add (b_power dflt)
                         (fl_sub (ab_power bb) (fsum (map b_power (account_rows e l)))))\<rparr>
        else r) (balance_tbl l)"
    using update_default_rows [of l "account_rows e l" e bb e1]
    by (simp add: account_rows_def select_records_def)
qed

theorem sync_broker_balance_conservation_witness:
  "wf_ledger empty_ledger \<and> db engine0 = Some empty_ledger \<and> exact_syncs engine0 snaps0 \<and>
   \<not> raised (sync_balance_seq engine0 snaps0) \<and>
   fsum (map b_cash (group_rows (state_of (sync_balance_seq engine0 snaps0))
      (the (db (state_of (sync_balance_seq engine0 snaps0)))))) = 1200 \<and>
   sum_list (map b_cash (group_rows (state_of (sync_balance_seq engine0 snaps0))
      (the (db (state_of (sync_balance_seq engine0 snaps0)))))) = 1200 \<and>
   sum_list (map b_power (group_rows (state_of (sync_balance_seq engine0 snaps0))
      (the (db (state_of (sync_balance_seq engine0 snaps0)))))) = 2100 \<and>
   map b_cash (account_rows engine1 ledger1) = [700, 300] \<and>
   map b_power (account_rows engine1 ledger1) = [1500, 500] \<and>
   map b_cash (balance_tbl (the (db (state_of
     (sync_broker_balance 5 (Some (balance_of 1200 2100)) engine1))))) = [900, 300] \<and>
   map b_power (balance_tbl (the (db (state_of
     (sync_broker_balance 5 (Some (balance_of 1200 2100)) engine1))))) = [1600, 500]"
proof -
  have wf: "wf_ledger empty_ledger" by (simp add: wf_ledger_def empty_ledger_def)
  have db: "db engine0 = Some empty_ledger" by (simp add: engine0_def)
  have nr: "\<not> raised (sync_balance_seq engine0 snaps0)"
    by (simp add: balance_eval)
  then have run: "sync_balance_seq engine0 snaps0 = Done (state_of (sync_balance_seq engine0 snaps0))"
    by (rule not_raised_Done)
  have ne: "snaps0 \<noteq> []" by (simp add: snaps0_def)
  have ex: "exact_syncs engine0 snaps0"
    by (simp add: exact_sync_def exact_delta_def exact_column_def exact_sub_def exact_add_def
        account_rows_def balance_eval)
  from sync_broker_balance_conservation [OF wf db, THEN conjunct1, rule_format, OF ne ex run]
  obtain l' where "db (state_of (sync_balance_seq engine0 snaps0)) = Some l'"
    "fsum (map b_cash (group_rows (state_of (sync_balance_seq engine0 snaps0)) l')) =
       ab_cash (snd (last snaps0))"
    "sum_list (map b_cash (group_rows (state_of (sync_balance_seq engine0 snaps0)) l')) =
       ab_cash (snd (last snaps0))"
    "sum_list (map b_power (group_rows (state_of (sync_balance_seq engine0 snaps0)) l')) =
       ab_power (snd (last snaps0))"
    by (elim exE conjE)
  then have seq: "fsum (map b_cash (group_rows (state_of (sync_balance_seq engine0 snaps0))
      (the (db (state_of (sync_balance_seq engine0 snaps0)))))) = 1200"
    "sum_list (map b_cash (group_rows (state_of (sync_balance_seq engine0 snaps0))
      (the (db (state_of (sync_balance_seq engine0 snaps0)))))) = 1200"
    "sum_list (map b_power (group_rows (state_of (sync_balance_seq engine0 snaps0))
      (the (db (state_of (sync_balance_seq engine0 snaps0)))))) = 2100"
    by (simp_all add: snaps0_def balance_of_def)
  have first_rows: "account_rows engine0 empty_ledger = []"
    by (simp add: account_rows_def select_records_def empty_ledger_def)
  have local: "pf_account_balance engine0 = Some (balance_of 300 500)"
    by (simp add: engine0_def balance_of_def)
  have "\<not> raised (sync_broker_balance 0 (Some (balance_of 1000 2000)) engine0)"
    by (simp add: balance_eval)
  then have first: "sync_broker_balance 0 (Some (balance_of 1000 2000)) engine0 = Done engine1"
    unfolding engine1_def by (rule not_raised_Done)
  have db1: "db engine1 = Some ledger1" by (simp add: engine1_eq)
  from sync_broker_balance_conservation [OF wf db, THEN conjunct2, THEN conjunct1, rule_format,
      OF first_rows local first]
  obtain l1 d s where "db engine1 = Some l1" "account_rows engine1 l1 = [d, s]"
    "b_cash d = fl_sub (ab_cash (balance_of 1000 2000)) (ab_cash (balance_of 300 500))"
    "b_power d = fl_sub (ab_power (balance_of 1000 2000)) (ab_power (balance_of 300 500))"
    "b_cash s = ab_cash (balance_of 300 500)" "b_power s = ab_power (balance_of 300 500)"
    by (elim exE conjE)
  then have boot: "map b_cash (account_rows engine1 ledger1) = [700, 300]"
    "map b_power (account_rows engine1 ledger1) = [1500, 500]"
    using db1 by (simp_all add: balance_of_def float_eval)
  have wf1: "wf_ledger ledger1"
    by (simp add: wf_ledger_def ledger1_def default1_def strategy1_def account_key_def)
  have rows1: "account_rows engine1 ledger1 = [default1, strategy1]"
    by (simp add: account_rows_def select_records_def of_account_def scenario1)
  then have ne1: "account_rows engine1 ledger1 \<noteq> []" by simp
  let ?out = "sync_broker_balance 5 (Some (balance_of 1200 2100)) engine1"
  have "\<not> raised ?out" by (simp add: scenario1 balance_eval)
  then have second: "?out = Done (state_of ?out)" by (rule not_raised_Done)
  from sync_broker_balance_conservation [OF wf1 db1, THEN conjunct2, THEN conjunct2, rule_format,
      OF ne1 second]
  obtain l2 dflt ds where l2: "db (state_of ?out) = Some l2"
    "filter (\<lambda>r. b_strategy_account r = ''default'') (account_rows engine1 ledger1) = dflt # ds"
    "balance_tbl l2 = map (\<lambda>r. if b_id r = b_id dflt
        then r\<lparr>b_cash :=
                 (if fl_sub (ab_cash (balance_of 1200 2100))
                       (fsum (map b_cash (account_rows engine1 ledger1))) = 0
                  then b_cash dflt
                  else fl_add (b_cash dflt)
                         (fl_sub (ab_cash (balance_of 1200 2100))
                            (fsum (map b_cash (account_rows engine1 ledger1))))),
               b_power :=
                 (if fl_sub (ab_power (balance_of 1200 2100))
                       (fsum (map b_power (account_rows engine1 ledger1))) = 0
                  then b_power dflt
                  else fl_add (b_power dflt)
                         (fl_sub (ab_power (balance_of 1200 2100))
                            (fsum (map b_power (account_rows engine1 ledger1)))))\<rparr>
        else r) (balance_tbl ledger1)"
    by (elim exE conjE)
  from l2(2) have "dflt = default1" by (simp add: rows1 default1_def strategy1_def)
  with l2(1) l2(3) [unfolded rows1] have upd: "map b_cash (balance_tbl (the (db (state_of ?out)))) = [900, 300]"
    "map b_power (balance_tbl (the (db (state_of ?out)))) = [1600, 500]"
    by (simp_all add: ledger1_def default1_def strategy1_def balance_of_def float_eval)
  from wf db ex nr seq boot upd show ?thesis by simp
qed

text \<open>
  Claim C2 (bootstrap scenario). Against an empty ledger, with the broker's balance
  \<open>{cash: 1000, power: 2000}\<close> and the local balance \<open>{cash: 300, power: 500}\<close>, the
  call makes exactly two writes, both inserts into the balance table: a default row
  \<open>{cash: 700, power: 1500}\<close> and a strategy row \<open>{cash: 300, power: 500}\<close>, with the
  same \<^verbatim>\<open>broker_account_id\<close> 1 and the \<^verbatim>\<open>strategy_account_id\<close>s 1 and 2. This holds
  for every identity, clock and value of the other balance fields.
\<close>

theorem sync_broker_balance_bootstrap_scenario:
  "db (state_of (sync_broker_balance now
       (Some \<lparr>ab_cash = 1000, ab_power = 2000, ab_max_power_short = m, ab_net_cash_power = n\<rparr>)
       (e\<lparr>db := Some empty_ledger,
          pf_account_balance := Some \<lparr>ab_cash = 300, ab_power = 500,
            ab_max_power_short = m', ab_net_cash_power = n'\<rparr>\<rparr>)))
   = Some \<lparr>balance_tbl =
       [\<lparr>b_id = 1, b_broker_name = broker_name e, b_broker_environment = broker_environment e,
         b_broker_account = broker_account e, b_broker_account_id = 1,
         b_strategy_account = ''default'', b_strategy_account_id = 1,
         b_strategy_version = strategy_version e, b_strategy_version_desc = ''manual trading'',
         b_strategy_status = ''active'', b_cash = 700, b_power = 1500,
         b_max_power_short = - 1, b_net_cash_power = - 1, b_update_time = now,
         b_remark = ''N/A''\<rparr>,
        \<lparr>b_id = 2, b_broker_name = broker_name e, b_broker_environment = broker_environment e,
         b_broker_account = broker_account e, b_broker_account_id = 1,
         b_strategy_account = strategy_account e, b_strategy_account_id = 2,
         b_strategy_version = strategy_version e, b_strategy_version_desc = '''',
         b_strategy_status = ''active'', b_cash = 300, b_power = 500,
         b_max_power_short = - 1, b_net_cash_power = - 1, b_update_time = now,
         b_remark = ''N/A''\<rparr>],
      position_tbl = [], writes = 2\<rparr>"
  by (simp add: sync_broker_balance_def select_records_def empty_ledger_def bootstrap_balance_def
      insert_balance_def default_row_def strategy_row_def reload_balance_def get_db_balance_def
      next_id_simps of_account_def of_strategy_def float_eval
      split: sum.splits list.splits option.splits)

text \<open>
  Claim C3 (the default row's version). The first-time branch writes the default row with
  the strategy's own \<^verbatim>\<open>strategy_version\<close>, while \<^verbatim>\<open>sync_broker_position\<close> looks for the
  default row of version \<open>1.0\<close> (its comment: the default account is assumed to have
  version 1.0 only). For the strategy version \<open>2.0\<close> the balance sync succeeds on the empty
  ledger, the default row it leaves has version \<open>2.0\<close>, and the position sync that follows
  fails its assertion, whatever the broker's positions.
\<close>

theorem default_row_version_mismatch:
  "\<not> raised (sync_broker_balance 0 (Some (balance_of 1000 2000)) (engine0\<lparr>strategy_version := ''2.0''\<rparr>)) \<and>
   map b_strategy_version (filter (\<lambda>r. b_strategy_account r = ''default'')
     (balance_tbl (the (db (state_of (sync_broker_balance 0 (Some (balance_of 1000 2000))
        (engine0\<lparr>strategy_version := ''2.0''\<rparr>)))))))
     = [''2.0''] \<and>
   sync_broker_position mrg (Some bps)
     (state_of (sync_broker_balance 0 (Some (balance_of 1000 2000)) (engine0\<lparr>strategy_version := ''2.0''\<rparr>)))
   = Raised AssertionError
     (state_of (sync_broker_balance 0 (Some (balance_of 1000 2000)) (engine0\<lparr>strategy_version := ''2.0''\<rparr>)))"
  by (simp add: balance_eval position_eval)

text \<open>
  Claim C4, as stated, fails: the two fields are checked and written one after the other.
  In the ledger of \<open>engine1\<close> (default row \<open>{cash: 700, power: 1500}\<close>, strategy row
  \<open>{cash: 300, power: 500}\<close>) the snapshot \<open>{cash: 1200, power: 400}\<close> makes the power
  check fail after the default row's cash has been written as 900.
\<close>

theorem partial_write_counterexample:
  "raised (sync_broker_balance 5 (Some (balance_of 1200 400)) engine1) \<and>
   map b_cash (balance_tbl (the (db engine1))) = [700, 300] \<and>
   map b_cash (balance_tbl (the (db (state_of
      (sync_broker_balance 5 (Some (balance_of 1200 400)) engine1))))) = [900, 300]"
  by (simp add: scenario1 balance_eval)

text \<open>
  Claim C4, amended. In the subsequent-times branch, with \<open>dflt\<close> the first default row
  of the account and the sums, differences and deltas computed in float arithmetic as the
  code does: if \<open>dflt.cash + delta_cash\<close> is negative, the call raises and the engine
  and the ledger are unchanged; if the cash check passes and \<open>dflt.power + delta_power\<close>
  is negative, the call raises with no power value written, and the ledger differs from
  the one before at most by the one cash update already made (when \<open>delta_cash\<close> is not
  zero, the cash of the row with the id of \<open>dflt\<close> is \<open>dflt.cash + delta_cash\<close>).
\<close>

theorem failed_check_writes:
  assumes db: "db e = Some l" and ne: "account_rows e l \<noteq> []"
    and dflt: "filter (\<lambda>r. b_strategy_account r = ''default'') (account_rows e l) = dflt # ds"
  shows "(fl_add (b_cash dflt) (fl_sub (ab_cash bb) (fsum (map b_cash (account_rows e l)))) < 0 \<longrightarrow>
            sync_broker_balance now (Some bb) e = Raised AssertionError e) \<and>
         (0 \<le> fl_add (b_cash dflt) (fl_sub (ab_cash bb) (fsum (map b_cash (account_rows e l)))) \<longrightarrow>
          fl_add (b_power dflt) (fl_sub (ab_power bb) (fsum (map b_power (account_rows e l)))) < 0 \<longrightarrow>
            sync_broker_balance now (Some bb) e =
              Raised AssertionError (e\<lparr>db := Some
                (if fl_sub (ab_cash bb) (fsum (map b_cash (account_rows e l))) \<noteq> 0
                 then update_balance (\<lambda>r. b_id r = b_id dflt)
                        (\<lambda>r. r\<lparr>b_cash := fl_add (b_cash dflt)
                           (fl_sub (ab_cash bb) (fsum (map b_cash (account_rows e l))))\<rparr>) l
                 else l)\<rparr>))"
  using db ne dflt
  by (auto simp: sync_broker_balance_def account_rows_def update_default_def sync_field_def Let_def)

theorem failed_check_writes_witness:
  "sync_broker_balance 5 (Some (balance_of 100 2000)) engine1 = Raised AssertionError engine1 \<and>
   sync_broker_balance 5 (Some (balance_of 1200 400)) engine1 =
     Raised AssertionError (engine1\<lparr>db := Some
       (update_balance (\<lambda>r. b_id r = 1) (\<lambda>r. r\<lparr>b_cash := 900\<rparr>) ledger1)\<rparr>)"
proof -
  have db: "db engine1 = Some ledger1" by (simp add: engine1_eq)
  have rows: "account_rows engine1 ledger1 = [default1, strategy1]"
    by (simp add: account_rows_def select_records_def of_account_def scenario1)
  have ne: "account_rows engine1 ledger1 \<noteq> []" by (simp add: rows)
  have dflt: "filter (\<lambda>r. b_strategy_account r = ''default'') (account_rows engine1 ledger1)
      = default1 # []"
    by (simp add: rows default1_def strategy1_def)
  have a: "sync_broker_balance 5 (Some (balance_of 100 2000)) engine1 = Raised AssertionError engine1"
    using failed_check_writes [OF db ne dflt, of "balance_of 100 2000" 5]
    by (simp add: rows default1_def strategy1_def balance_of_def float_eval)
  have b: "sync_broker_balance 5 (Some (balance_of 1200 400)) engine1 =
     Raised AssertionError (engine1\<lparr>db := Some
       (update_balance (\<lambda>r. b_id r = 1) (\<lambda>r. r\<lparr>b_cash := 900\<rparr>) ledger1)\<rparr>)"
    using failed_check_writes [OF db ne dflt, of "balance_of 1200 400" 5]
    by (simp add: rows default1_def strategy1_def balance_of_def float_eval)
  from a b show ?thesis by simp
qed

text \<open>
  Claim C9, as stated, fails: the amounts are floats, and the sums and differences of the
  first call round. After the first sync of the strategy with the local cash \<open>0.2\<close>
  against a broker reporting \<open>0.9\<close>, the ledger holds \<open>0.7\<close> and \<open>0.2\<close> after two
  writes. The second call with the same snapshot finds the sum \<open>0.8999999999999999\<close>,
  a delta that is not zero, and updates the default row's cash and its power: two more
  writes.
\<close>

theorem idempotence_rounding_counterexample:
  "wf_ledger empty_ledger \<and> db engine_f = Some empty_ledger \<and>
   sync_broker_balance 0 (Some (balance_of f09 f09)) engine_f = Done engine_f1 \<and>
   map b_cash (balance_tbl (the (db engine_f1))) = [f07, f02] \<and>
   writes (the (db engine_f1)) = 2 \<and>
   \<not> raised (sync_broker_balance 5 (Some (balance_of f09 f09)) engine_f1) \<and>
   map b_cash (balance_tbl (the (db (state_of
      (sync_broker_balance 5 (Some (balance_of f09 f09)) engine_f1))))) = [f07up, f02] \<and>
   f07up \<noteq> f07 \<and>
   writes (the (db (state_of (sync_broker_balance 5 (Some (balance_of f09 f09)) engine_f1)))) = 4"
proof -
  have nr: "\<not> raised (sync_broker_balance 0 (Some (balance_of f09 f09)) engine_f)"
    by (simp add: engine_f_def balance_eval float_scenario float_scenario_order)
  then have run: "sync_broker_balance 0 (Some (balance_of f09 f09)) engine_f = Done engine_f1"
    unfolding engine_f1_def by (rule not_raised_Done)
  have e1: "engine_f1 = engine_f\<lparr>db := Some
      (ledger1\<lparr>balance_tbl := [default1\<lparr>b_cash := f07, b_power := f07\<rparr>,
                               strategy1\<lparr>b_cash := f02, b_power := f02\<rparr>]\<rparr>)\<rparr>"
    by (simp add: engine_f1_def engine_f_def ledger1_def default1_def strategy1_def balance_eval
        float_scenario float_scenario_order)
  have a: "map b_cash (balance_tbl (the (db engine_f1))) = [f07, f02]"
    "writes (the (db engine_f1)) = 2"
    by (simp_all add: e1 ledger1_def)
  have b: "\<not> raised (sync_broker_balance 5 (Some (balance_of f09 f09)) engine_f1)"
    "map b_cash (balance_tbl (the (db (state_of
      (sync_broker_balance 5 (Some (balance_of f09 f09)) engine_f1))))) = [f07up, f02]"
    "writes (the (db (state_of (sync_broker_balance 5 (Some (balance_of f09 f09)) engine_f1)))) = 4"
    by (simp_all add: e1 engine_f_def ledger1_def default1_def strategy1_def balance_eval
        float_scenario float_scenario_order)
  have "wf_ledger empty_ledger" by (simp add: wf_ledger_def empty_ledger_def)
  moreover have "db engine_f = Some empty_ledger" by (simp add: engine_f_def engine0_def)
  ultimately show ?thesis using run a b float_scenario_order(5) by simp
qed

text \<open>
  Claim C9, amended (idempotence when the first call does not round). After a successful
  balance sync from a well-formed ledger in which no float operation rounds
  (\<open>exact_sync\<close>), a second sync with the same broker snapshot leaves the ledger as it
  is, its count of write operations included: no insert and no update is made.
\<close>

theorem sync_broker_balance_idempotent:
  assumes wf: "wf_ledger l" and db: "db e = Some l"
    and ok: "sync_broker_balance now (Some bb) e = Done e1"
    and ex: "exact_sync now bb e"
  shows "db (state_of (sync_broker_balance now' (Some bb) e1)) = db e1"
proof -
  from sync_broker_balance_step [OF wf db ok ex] obtain l1 where
    l1: "db e1 = Some l1" "fsum (map b_cash (account_rows e1 l1)) = ab_cash bb"
      "fsum (map b_power (account_rows e1 l1)) = ab_power bb"
    by blast
  from sync_broker_balance_rows_nonempty [OF db ok] l1(1)
  have ne: "account_rows e1 l1 \<noteq> []" by auto
  then have "sync_broker_balance now' (Some bb) e1 = update_default bb e1 l1 (account_rows e1 l1)"
    using l1(1) by (simp add: sync_broker_balance_def account_rows_def)
  then show ?thesis
    using update_default_unchanged [OF l1(2,3,1)] l1(1) by simp
qed

theorem sync_broker_balance_idempotent_witness:
  "wf_ledger empty_ledger \<and> exact_sync 0 (balance_of 1000 2000) engine0 \<and>
   \<not> raised (sync_broker_balance 0 (Some (balance_of 1000 2000)) engine0) \<and>
   db (state_of (sync_broker_balance 5 (Some (balance_of 1000 2000)) engine1)) = db engine1 \<and>
   map_option writes (db engine1) = Some 2"
proof -
  have wf: "wf_ledger empty_ledger" by (simp add: wf_ledger_def empty_ledger_def)
  have db: "db engine0 = Some empty_ledger" by (simp add: engine0_def)
  have nr: "\<not> raised (sync_broker_balance 0 (Some (balance_of 1000 2000)) engine0)"
    by (simp add: balance_eval)
  then have ok: "sync_broker_balance 0 (Some (balance_of 1000 2000)) engine0 = Done engine1"
    unfolding engine1_def by (rule not_raised_Done)
  have ex: "exact_sync 0 (balance_of 1000 2000) engine0"
    by (simp add: exact_sync_def exact_delta_def exact_column_def exact_sub_def exact_add_def
        account_rows_def balance_eval)
  from sync_broker_balance_idempotent [OF wf db ok ex, of 5] wf nr ex show ?thesis
    by (simp add: scenario1)
qed

subsection \<open>Position sync\<close>



text \<open>
  Claim C6 describes what the code does not do: the inner loop visits only the broker
  positions of the ledger position's key, and a ledger position whose key the broker's
  snapshot does not hold meets no check. In \<open>engine3\<close> the strategy owns 40 of HK.00700.
  With a snapshot that holds HK.00005 only, the position sync returns, the strategy's
  position row stays in the ledger, and the 40 are loaded into the portfolio as the
  strategy's position, though the broker holds none. With a snapshot that lists HK.00700
  with the quantity 0, the same state of the broker, the call raises \<^verbatim>\<open>ValueError\<close>
  (lines 298 to 301).
\<close>

theorem unmatched_key_not_detected:
  "sync_broker_position mrg (Some [pos_b]) engine3 =
     Done (engine3\<lparr>db := Some (ledger1\<lparr>position_tbl :=
                       [row40, (position_row_of 1 pos_b)\<lparr>p_id := 2\<rparr>], writes := 4\<rparr>),
                   pf_position := [(pd_key pos40, pos40)]\<rparr>) \<and>
   sync_broker_position mrg (Some [pos_a\<lparr>pd_quantity := 0\<rparr>, pos_b]) engine3 =
     Raised ValueError engine3"
  by (simp add: scenario3 position_eval)

text \<open>
  Claim C7, as stated, fails: the first-time branch of the position sync inserts every
  broker position as it is. A broker position of quantity 0, synced into the ledger of
  \<open>engine1\<close>, which has no position rows yet, is written as a row of quantity 0.
\<close>

theorem zero_quantity_counterexample:
  "map p_quantity (position_tbl (the (db (state_of
     (sync_broker_position keep_new (Some [pos_a\<lparr>pd_quantity := 0\<rparr>]) engine1))))) = [0]"
  by (simp add: scenario3 position_eval)

text \<open>
  Claim C7, amended. The subsequent-times branch of the position sync reinserts only
  remainders of positive quantity: a ledger without position rows of quantity 0 stays
  without them, whatever the broker reports. The position sync as a whole (first-time
  branch included) and \<^verbatim>\<open>persist_position\<close> leave such a ledger without them when the
  entries they are given, the broker's positions and the in-memory positions, have no
  quantity 0.
\<close>

theorem no_zero_quantity_written:
  "(db e = Some l \<longrightarrow> no_zero_quantity l \<longrightarrow>
      (\<exists>l'. db (state_of (replace_default_positions mrg did sid pdf bps e l)) = Some l' \<and>
            no_zero_quantity l')) \<and>
   (db e = Some l \<longrightarrow> no_zero_quantity l \<longrightarrow> (\<forall>b \<in> set bps. pd_quantity b \<noteq> 0) \<longrightarrow>
      (\<exists>l'. db (state_of (sync_broker_position mrg (Some bps) e)) = Some l' \<and>
            no_zero_quantity l')) \<and>
   (db e = Some l \<longrightarrow> no_zero_quantity l \<longrightarrow>
    (\<forall>pd \<in> set (get_all_positions (pf_position e)). pd_quantity pd \<noteq> 0) \<longrightarrow>
      (\<exists>l'. db (state_of (persist_position mrg e)) = Some l' \<and> no_zero_quantity l'))"
proof (intro conjI impI)
  assume "db e = Some l" "no_zero_quantity l"
  then show "\<exists>l'. db (state_of (replace_default_positions mrg did sid pdf bps e l)) = Some l' \<and>
            no_zero_quantity l'"
    by (rule replace_no_zero)
next
  assume db: "db e = Some l" and nz: "no_zero_quantity l"
    and bps: "\<forall>b \<in> set bps. pd_quantity b \<noteq> 0"
  from sync_broker_position_cases [OF db, of mrg bps]
  show "\<exists>l'. db (state_of (sync_broker_position mrg (Some bps) e)) = Some l' \<and> no_zero_quantity l'"
  proof (elim disjE exE)
    assume "state_of (sync_broker_position mrg (Some bps) e) = e"
    with db nz show ?thesis by simp
  next
    fix did
    assume "sync_broker_position mrg (Some bps) e = bootstrap_position did bps e l"
    then show ?thesis
      using insert_all_no_zero [OF nz bps, of did] by (simp add: bootstrap_position_def)
  next
    fix did sid pdf
    assume "sync_broker_position mrg (Some bps) e = replace_default_positions mrg did sid pdf bps e l"
    then show ?thesis using replace_no_zero [OF db nz, of mrg did sid pdf bps] by simp
  qed
next
  assume db: "db e = Some l" and nz: "no_zero_quantity l"
    and pds: "\<forall>pd \<in> set (get_all_positions (pf_position e)). pd_quantity pd \<noteq> 0"
  have del: "no_zero_quantity (delete_position flt l)" for flt
    using nz by (simp add: no_zero_quantity_def delete_position_def)
  show "\<exists>l'. db (state_of (persist_position mrg e)) = Some l' \<and> no_zero_quantity l'"
    using db nz insert_all_no_zero [OF nz pds] insert_all_no_zero [OF del pds]
    by (auto simp: persist_position_def Let_def split: list.splits sum.splits)
qed

theorem no_zero_quantity_written_witness:
  "no_zero_quantity (the (db engine2)) \<and>
   no_zero_quantity (the (db (state_of (sync_broker_position keep_new (Some [pos_a]) engine2)))) \<and>
   no_zero_quantity (the (db (state_of (replace_default_positions keep_new 1 2 [row40]
      [pos_a\<lparr>pd_quantity := 40\<rparr>] engine3 (ledger1\<lparr>position_tbl := [row40]\<rparr>))))) \<and>
   no_zero_quantity (the (db (state_of (persist_position keep_new engine4))))"
proof -
  have db: "db engine2 = Some (the (db engine2))" by (simp add: engine2_eq)
  have nz: "no_zero_quantity (the (db engine2))"
    by (simp add: engine2_eq no_zero_quantity_def)
  have bps: "\<forall>b \<in> set [pos_a]. pd_quantity b \<noteq> 0" by (simp add: pos_a_def)
  from no_zero_quantity_written [of engine2 "the (db engine2)" keep_new _ _ _ "[pos_a]",
      THEN conjunct2, THEN conjunct1] db nz bps
  obtain l' where "db (state_of (sync_broker_position keep_new (Some [pos_a]) engine2)) = Some l'"
    "no_zero_quantity l'" by blast
  then have b: "no_zero_quantity (the (db (state_of (sync_broker_position keep_new (Some [pos_a]) engine2))))"
    by simp
  have db3: "db engine3 = Some (ledger1\<lparr>position_tbl := [row40]\<rparr>)" by (simp add: engine3_def)
  have nz3: "no_zero_quantity (ledger1\<lparr>position_tbl := [row40]\<rparr>)"
    by (simp add: no_zero_quantity_def row40_def)
  from no_zero_quantity_written [of engine3 "ledger1\<lparr>position_tbl := [row40]\<rparr>" keep_new 1 2
      "[row40]" "[pos_a\<lparr>pd_quantity := 40\<rparr>]", THEN conjunct1] db3 nz3
  obtain l3 where "db (state_of (replace_default_positions keep_new 1 2 [row40]
      [pos_a\<lparr>pd_quantity := 40\<rparr>] engine3 (ledger1\<lparr>position_tbl := [row40]\<rparr>))) = Some l3"
    "no_zero_quantity l3" by blast
  then have a: "no_zero_quantity (the (db (state_of (replace_default_positions keep_new 1 2 [row40]
      [pos_a\<lparr>pd_quantity := 40\<rparr>] engine3 (ledger1\<lparr>position_tbl := [row40]\<rparr>)))))"
    by simp
  have db4: "db engine4 = Some (the (db engine2))" by (simp add: engine4_def engine2_eq)
  have pds: "\<forall>pd \<in> set (get_all_positions (pf_position engine4)). pd_quantity pd \<noteq> 0"
    by (simp add: engine4_def get_all_positions_def pos_b_def)
  from no_zero_quantity_written [of engine4 "the (db engine2)" keep_new,
      THEN conjunct2, THEN conjunct2] db4 nz pds
  obtain l4 where "db (state_of (persist_position keep_new engine4)) = Some l4"
    "no_zero_quantity l4" by blast
  then have c: "no_zero_quantity (the (db (state_of (persist_position keep_new engine4))))"
    by simp
  from nz b a c show ?thesis by simp
qed

subsection \<open>Unavailable snapshots\<close>

text \<open>
  Claim C8, as stated, fails for an empty list of positions: it is not \<^verbatim>\<open>None\<close>, so the
  position sync goes on and treats it as a broker without positions. On \<open>engine2\<close>, whose
  default row holds \<open>pos_a\<close>, the call deletes that position row.
\<close>

theorem empty_positions_not_noop:
  "position_tbl (the (db engine2)) \<noteq> [] \<and>
   position_tbl (the (db (state_of (sync_broker_position keep_new (Some []) engine2)))) = []"
  by (simp add: engine2_eq scenario1 position_eval)

text \<open>
  Claim C8, amended. A snapshot that is \<^verbatim>\<open>None\<close> means unavailable: both syncs return with
  the engine, its portfolio and its ledger unchanged.
\<close>

theorem unavailable_is_noop:
  "sync_broker_balance now None e = Done e \<and> sync_broker_position mrg None e = Done e"
  by (simp add: sync_broker_balance_def sync_broker_position_def)

theorem unavailable_is_noop_witness:
  "sync_broker_balance 0 None engine2 = Done engine2 \<and>
   sync_broker_position keep_new None engine2 = Done engine2"
  by (rule unavailable_is_noop)

subsection \<open>Persistence\<close>

text \<open>
  Claim C10, as stated, fails in two ways. First, for an in-memory position table that is
  empty the persistence step leaves no position row for the strategy, and
  \<^verbatim>\<open>get_db_position\<close> returns \<^verbatim>\<open>None\<close> (its documented result when the ledger has no
  record), not a Position; \<open>engine1\<close> is such a state, its strategy row having the id 2.
  Second, a position whose timestamp has a fraction of a second is written with it, and
  the reload, which parses the timestamp with a format that has no fraction, raises
  \<^verbatim>\<open>ValueError\<close>; \<open>engine5\<close> is such a state, the persistence step returning with the
  portfolio as it was.
\<close>

theorem reload_counterexample:
  "pf_position engine1 = [] \<and>
   get_db_position keep_new (the (db (state_of (persist_step keep_new engine1)))) 2 = Inr None \<and>
   \<not> raised (persist_step keep_new engine5) \<and>
   map (pd_update_time \<circ> snd) (pf_position (state_of (persist_step keep_new engine5))) = [4500000] \<and>
   map p_update_time (filter (\<lambda>r. p_balance_id r = 2)
     (position_tbl (the (db (state_of (persist_step keep_new engine5)))))) = [4500000] \<and>
   get_db_position keep_new (the (db (state_of (persist_step keep_new engine5)))) 2 =
     Inl ValueError"
proof -
  have a: "pf_position engine1 = []"
    "get_db_position keep_new (the (db (state_of (persist_step keep_new engine1)))) 2 = Inr None"
    by (simp_all add: persist_step_def persist_account_balance_def persist_position_def
      get_db_balance_def balance_updates_def get_all_positions_def scenario1 position_eval)
  have e5: "engine5 = engine0\<lparr>db := Some (ledger1\<lparr>position_tbl :=
       [\<lparr>p_id = 1, p_balance_id = 1, p_security_code = ''HK.00700'', p_security_name = ''TENCENT'',
         p_direction = ''LONG'', p_holding_price = 10, p_quantity = 100, p_update_time = 0\<rparr>],
       writes := 3\<rparr>),
     pf_account_balance := Some (balance_of 250 400),
     pf_position := [(pd_key pos_b, pos_b\<lparr>pd_update_time := 4500000\<rparr>)]\<rparr>"
    by (simp add: engine5_def engine4_def engine2_eq engine1_eq)
  have b: "\<not> raised (persist_step keep_new engine5)"
    "map (pd_update_time \<circ> snd) (pf_position (state_of (persist_step keep_new engine5))) = [4500000]"
    "map p_update_time (filter (\<lambda>r. p_balance_id r = 2)
       (position_tbl (the (db (state_of (persist_step keep_new engine5)))))) = [4500000]"
    "get_db_position keep_new (the (db (state_of (persist_step keep_new engine5)))) 2 =
       Inl ValueError"
    unfolding e5
    by (simp_all add: persist_step_def persist_account_balance_def persist_position_def
      get_db_balance_def balance_updates_def get_all_positions_def set_column_def update_balance_def
      engine0_def ledger1_def default1_def strategy1_def balance_of_def pos_b_def position_eval)
  from a b show ?thesis by simp
qed

text \<open>
  Claim C10, amended. Let the ledger hold exactly one balance row \<open>r\<close> of the engine's
  account and strategy; let the position rows that it holds for that balance id be
  readable (a direction name in the direction column, a timestamp without a fraction of a
  second); let the portfolio have a balance; let the in-memory position table file every
  entry under its own key, with unique keys, and hold only positions whose timestamp has
  no fraction of a second. Then one persistence step (\<^verbatim>\<open>persist_account_balance\<close>, then
  \<^verbatim>\<open>persist_position\<close>) returns, leaves the portfolio as it was, and afterwards
  \<^verbatim>\<open>get_db_balance\<close> returns exactly the in-memory balance; \<^verbatim>\<open>get_db_position\<close> returns
  exactly the in-memory position table when that is not empty, and \<^verbatim>\<open>None\<close> when it is
  empty.
\<close>

theorem persist_reload_roundtrip:
  assumes db: "db e = Some l"
    and row: "select_records
                (\<lambda>r. of_account e r \<and> of_strategy (strategy_account e) (strategy_version e) r)
                (balance_tbl l) = [r]"
    and valid: "valid_position_rows l (b_id r)"
    and ab: "pf_account_balance e = Some ab"
    and inv: "position_inv (pf_position e)"
    and ws: "whole_seconds (pf_position e)"
  shows "\<exists>e2 l2. persist_step mrg e = Done e2 \<and> db e2 = Some l2 \<and>
           pf_account_balance e2 = Some ab \<and> pf_position e2 = pf_position e \<and>
           get_db_balance e2 l2 (strategy_account e2) (strategy_version e2) = Inr (Some ab) \<and>
           get_db_position mrg l2 (b_id r) =
             Inr (if pf_position e = [] then None else Some (pf_position e))"
proof -
  let ?P = "\<lambda>r. of_account e r \<and> of_strategy (strategy_account e) (strategy_version e) r"
  from row have row': "filter ?P (balance_tbl l) = [r]" by (simp add: select_records_def)
  from persist_account_balance_ok [OF db row' ab] obtain l1 r1 where
    p1: "persist_account_balance e = Done (e\<lparr>db := Some l1\<rparr>)" and
    pt: "position_tbl l1 = position_tbl l" and
    f1: "filter ?P (balance_tbl l1) = [r1]" and
    id1: "b_id r1 = b_id r" and
    vals: "b_cash r1 = ab_cash ab" "b_power r1 = ab_power ab"
      "b_max_power_short r1 = ab_max_power_short ab" "b_net_cash_power r1 = ab_net_cash_power ab"
    by blast
  let ?e1 = "e\<lparr>db := Some l1\<rparr>"
  have db1: "db ?e1 = Some l1" by simp
  have row1: "filter (\<lambda>r. of_account ?e1 r \<and> of_strategy (strategy_account ?e1) (strategy_version ?e1) r)
      (balance_tbl l1) = [r1]"
    using f1 by simp
  have inv1: "position_inv (pf_position ?e1)" using inv by simp
  have ws1: "whole_seconds (pf_position ?e1)" using ws by simp
  have valid1: "valid_position_rows l1 (b_id r1)"
    using valid by (simp add: valid_position_rows_def pt id1)
  from persist_position_ok [OF db1 row1 inv1 ws1 valid1, of mrg] obtain l2 where
    p2: "persist_position mrg ?e1 = Done (?e1\<lparr>db := Some l2\<rparr>)" and
    bt: "balance_tbl l2 = balance_tbl l1" and
    gp: "get_db_position mrg l2 (b_id r1) =
           Inr (if pf_position ?e1 = [] then None else Some (pf_position ?e1))"
    by blast
  let ?e2 = "?e1\<lparr>db := Some l2\<rparr>"
  have step: "persist_step mrg e = Done ?e2" by (simp add: persist_step_def p1 p2)
  have "\<lparr>ab_cash = b_cash r1, ab_power = b_power r1, ab_max_power_short = b_max_power_short r1,
         ab_net_cash_power = b_net_cash_power r1\<rparr> = ab"
    by (simp add: vals)
  then have gb: "get_db_balance ?e2 l2 (strategy_account ?e2) (strategy_version ?e2) = Inr (Some ab)"
    using f1 by (simp add: get_db_balance_def select_records_def bt)
  have "db ?e2 = Some l2" "pf_account_balance ?e2 = Some ab" "pf_position ?e2 = pf_position e"
    using ab by simp_all
  with step gb gp id1 show ?thesis by auto
qed

theorem persist_reload_roundtrip_witness:
  "position_inv (pf_position engine4) \<and> whole_seconds (pf_position engine4) \<and>
   valid_position_rows (the (db engine4)) 2 \<and>
   \<not> raised (persist_step keep_new engine4) \<and>
   get_db_balance (state_of (persist_step keep_new engine4))
     (the (db (state_of (persist_step keep_new engine4))))
     (strategy_account (state_of (persist_step keep_new engine4)))
     (strategy_version (state_of (persist_step keep_new engine4))) =
     Inr (Some (balance_of 250 400)) \<and>
   get_db_position keep_new (the (db (state_of (persist_step keep_new engine4)))) 2 =
     Inr (Some [(pd_key pos_b, pos_b)])"
proof -
  have db: "db engine4 = Some (the (db engine2))" by (simp add: engine4_def engine2_eq)
  have row: "select_records
      (\<lambda>r. of_account engine4 r \<and> of_strategy (strategy_account engine4) (strategy_version engine4) r)
      (balance_tbl (the (db engine2))) = [strategy1]"
    by (simp add: engine4_def engine2_eq scenario1 select_records_def of_account_def of_strategy_def)
  have ab: "pf_account_balance engine4 = Some (balance_of 250 400)" by (simp add: engine4_def)
  have inv: "position_inv (pf_position engine4)" by (simp add: engine4_def position_inv_def)
  have ws: "whole_seconds (pf_position engine4)"
    by (simp add: engine4_def whole_seconds_def whole_second_def get_all_positions_def pos_b_def)
  have valid: "valid_position_rows (the (db engine2)) (b_id strategy1)"
    by (simp add: valid_position_rows_def engine2_eq scenario1)
  from persist_reload_roundtrip [OF db row valid ab inv ws, of keep_new] obtain e2 l2 where
    "persist_step keep_new engine4 = Done e2" "db e2 = Some l2"
    "get_db_balance e2 l2 (strategy_account e2) (strategy_version e2) = Inr (Some (balance_of 250 400))"
    "get_db_position keep_new l2 (b_id strategy1) =
       Inr (if pf_position engine4 = [] then None else Some (pf_position engine4))"
    by blast
  moreover have "valid_position_rows (the (db engine4)) 2"
    using valid db by (simp add: strategy1_def)
  ultimately show ?thesis using inv ws by (simp add: engine4_def strategy1_def)
qed

end
